theory Spec2Isabelle
  imports Complex_Main
begin

section \<open>Python and numpy primitives used by \<^verbatim>\<open>chempy/equilibria.py\<close>\<close>

text \<open>
  Concentrations, equilibrium constants and reaction coordinates are floating-point numbers
  in the source. They are idealised here as real numbers: rounding, signed zeros,
  infinities and NaN are outside the model. Wherever numpy would produce an infinity or a
  NaN (a division by zero), the theorems below exclude the input by a hypothesis instead of
  giving the quotient a meaning. Stoichiometric coefficients are integers.
\<close>

datatype error =
    ValueError string
  | IndexError
  | NotImplementedError

text \<open>
  An elementwise binary operation on two one-dimensional numpy arrays: equal shapes are
  combined position by position, an array of length one is broadcast against the other
  one, and any other pair of shapes raises \<^verbatim>\<open>ValueError\<close>.
\<close>

definition np_binop :: "('a \<Rightarrow> 'b \<Rightarrow> 'c) \<Rightarrow> 'a list \<Rightarrow> 'b list \<Rightarrow> error + 'c list" where
  "np_binop f xs ys =
     (if length xs = length ys then Inr (map2 f xs ys)
      else if length xs = 1 then Inr (map (f (hd xs)) ys)
      else if length ys = 1 then Inr (map (\<lambda>x. f x (hd ys)) xs)
      else Inl (ValueError ''operands could not be broadcast together''))"

text \<open>
  An in-place operation \<^verbatim>\<open>xs -= ys\<close>, \<^verbatim>\<open>xs *= ys\<close>: the right operand must
  broadcast to the shape of the left one, which keeps its shape.
\<close>

definition np_inplace :: "('a \<Rightarrow> 'b \<Rightarrow> 'a) \<Rightarrow> 'a list \<Rightarrow> 'b list \<Rightarrow> error + 'a list" where
  "np_inplace f xs ys =
     (if length xs = length ys then Inr (map2 f xs ys)
      else if length ys = 1 then Inr (map (\<lambda>x. f x (hd ys)) xs)
      else Inl (ValueError ''operands could not be broadcast together''))"

text \<open>\<^verbatim>\<open>np.max\<close> and \<^verbatim>\<open>np.min\<close> of a selection; both raise on an empty one.\<close>

fun np_max :: "real list \<Rightarrow> error + real" where
  "np_max [] = Inl (ValueError ''zero-size array to reduction operation maximum'')"
| "np_max (x # xs) = Inr (fold max xs x)"

fun np_min :: "real list \<Rightarrow> error + real" where
  "np_min [] = Inl (ValueError ''zero-size array to reduction operation minimum'')"
| "np_min (x # xs) = Inr (fold min xs x)"

text \<open>The builtin \<^verbatim>\<open>min\<close> applied to one list argument.\<close>

fun py_min :: "real list \<Rightarrow> error + real" where
  "py_min [] = Inl (ValueError ''min() arg is an empty sequence'')"
| "py_min (x # xs) = Inr (fold min xs x)"

text \<open>
  \<^verbatim>\<open>get_rc_interval\<close> binds \<^verbatim>\<open>lower\<close> and \<^verbatim>\<open>upper\<close> either to the integer
  literal \<^verbatim>\<open>0\<close> or to a numpy float, and then tests them with \<^verbatim>\<open>is 0\<close>: an identity
  test that only the small integer \<^verbatim>\<open>0\<close> passes, never a numpy float. The two kinds of
  number are therefore kept apart.
\<close>

datatype pynum = PyInt int | NpFloat real

fun is_int_zero :: "pynum \<Rightarrow> bool" where
  "is_int_zero (PyInt n) = (n = 0)"
| "is_int_zero (NpFloat _) = False"

fun num_val :: "pynum \<Rightarrow> real" where
  "num_val (PyInt n) = of_int n"
| "num_val (NpFloat r) = r"

section \<open>The single-reaction coordinate solver\<close>

text \<open>
  Modelled from the spec: \<^verbatim>\<open>equilibrium_quotient\<close> of \<^verbatim>\<open>chempy.chemistry\<close> is not
  part of the source at hand. The reaction quotient is the product of the concentrations
  raised to their stoichiometric powers; the pairing of the two sequences stops at the
  shorter one.
\<close>

definition equilibrium_quotient :: "real list \<Rightarrow> int list \<Rightarrow> real" where
  "equilibrium_quotient concs stoich =
     fold (\<lambda>(nr, conc) tot. tot * (conc powi nr)) (zip stoich concs) 1"

text \<open>
  \<^verbatim>\<open>equilibrium_residual\<close> for a one-dimensional \<^verbatim>\<open>stoich\<close>. The activity product is
  an optional callback on the concentrations.
\<close>

definition equilibrium_residual ::
  "real \<Rightarrow> real list \<Rightarrow> int list \<Rightarrow> real \<Rightarrow> (real list \<Rightarrow> real) option \<Rightarrow> error + real" where
  "equilibrium_residual rc c0 stoich K activity_product =
     (case np_binop (+) c0 (map (\<lambda>s. of_int s * rc) stoich) of
        Inl e \<Rightarrow> Inl e
      | Inr c \<Rightarrow>
          (let Q = equilibrium_quotient c stoich;
               Q' = (case activity_product of None \<Rightarrow> Q | Some ap \<Rightarrow> Q * ap c)
           in Inr (K - Q')))"

definition get_rc_interval :: "int list \<Rightarrow> real list \<Rightarrow> error + (pynum \<times> pynum)" where
  "get_rc_interval stoich c0 =
     (case np_binop (\<lambda>c s. c / of_int s) c0 stoich of
        Inl e \<Rightarrow> Inl e
      | Inr limits \<Rightarrow>
          (case (if list_ex (\<lambda>l. l < 0) limits
                 then map_sum id (\<lambda>m. NpFloat (- m)) (np_max (filter (\<lambda>l. l < 0) limits))
                 else Inr (PyInt 0)) of
             Inl e \<Rightarrow> Inl e
           | Inr upper \<Rightarrow>
               (case (if list_ex (\<lambda>l. l > 0) limits
                      then map_sum id (\<lambda>m. NpFloat (- m)) (np_min (filter (\<lambda>l. l > 0) limits))
                      else Inr (PyInt 0)) of
                  Inl e \<Rightarrow> Inl e
                | Inr lower \<Rightarrow>
                    (if is_int_zero lower \<and> is_int_zero upper
                     then Inl (ValueError ''0-interval'')
                     else Inr (lower, upper)))))"

text \<open>\<^verbatim>\<open>np.nonzero(stoich)\<close>: the positions of the nonzero coefficients, ascending.\<close>

definition np_nonzero :: "int list \<Rightarrow> nat list" where
  "np_nonzero stoich = filter (\<lambda>i. stoich ! i \<noteq> 0) [0..<length stoich]"

text \<open>Indexing an array with an index array; an index past the end raises.\<close>

definition np_take :: "'a list \<Rightarrow> nat list \<Rightarrow> error + 'a list" where
  "np_take xs idxs =
     (if list_all (\<lambda>i. i < length xs) idxs then Inr (map (\<lambda>i. xs ! i) idxs)
      else Inl IndexError)"

text \<open>
  \<^verbatim>\<open>scipy.optimize.brentq\<close> is an external collaborator and a parameter of the model:
  it receives the scalar function (the residual with its extra arguments supplied), the
  two ends of the bracket, and either returns a number or raises.
\<close>

type_synonym root_finder = "(real \<Rightarrow> error + real) \<Rightarrow> real \<Rightarrow> real \<Rightarrow> error + real"

definition solve_equilibrium_coord ::
  "root_finder \<Rightarrow> real list \<Rightarrow> int list \<Rightarrow> real \<Rightarrow> (real list \<Rightarrow> real) option \<Rightarrow> error + real" where
  "solve_equilibrium_coord brentq c0 stoich K activity_product =
     (let mask = np_nonzero stoich;
          stoich_m = map (\<lambda>i. stoich ! i) mask
      in case np_take c0 mask of
           Inl e \<Rightarrow> Inl e
         | Inr c0_m \<Rightarrow>
             (case get_rc_interval stoich_m c0_m of
                Inl e \<Rightarrow> Inl e
              | Inr (lower, upper) \<Rightarrow>
                  brentq (\<lambda>rc. equilibrium_residual rc c0_m stoich_m K activity_product)
                         (num_val lower) (num_val upper)))"

definition solve_equilibrium ::
  "root_finder \<Rightarrow> real list \<Rightarrow> int list \<Rightarrow> real \<Rightarrow> (real list \<Rightarrow> real) option \<Rightarrow> error + real list" where
  "solve_equilibrium brentq c0 stoich K activity_product =
     (case solve_equilibrium_coord brentq c0 stoich K activity_product of
        Inl e \<Rightarrow> Inl e
      | Inr rc \<Rightarrow> np_binop (+) c0 (map (\<lambda>s. rc * of_int s) stoich))"

text \<open>
  The feasible interval as the specification words it: the ratios \<open>c0\<^sub>i / stoich\<^sub>i\<close>, the
  negative ones and the positive ones; the upper bound is the negated maximum of the
  negative ratios, the lower bound the negated minimum of the positive ones, and either is
  \<open>0\<close> when there is no such ratio.
\<close>

definition rc_limits :: "real list \<Rightarrow> int list \<Rightarrow> real list" where
  "rc_limits c0 stoich = map2 (\<lambda>c s. c / of_int s) c0 stoich"

definition neg_ratios :: "real list \<Rightarrow> int list \<Rightarrow> real set" where
  "neg_ratios c0 stoich = {l \<in> set (rc_limits c0 stoich). l < 0}"

definition pos_ratios :: "real list \<Rightarrow> int list \<Rightarrow> real set" where
  "pos_ratios c0 stoich = {l \<in> set (rc_limits c0 stoich). 0 < l}"

definition rc_upper :: "real list \<Rightarrow> int list \<Rightarrow> real" where
  "rc_upper c0 stoich = (if neg_ratios c0 stoich = {} then 0 else - Max (neg_ratios c0 stoich))"

definition rc_lower :: "real list \<Rightarrow> int list \<Rightarrow> real" where
  "rc_lower c0 stoich = (if pos_ratios c0 stoich = {} then 0 else - Min (pos_ratios c0 stoich))"

text \<open>
  The quotient raises a zero concentration to a negative power nowhere: the condition
  under which the product of powers is a real number.
\<close>

definition finite_quotient :: "real list \<Rightarrow> int list \<Rightarrow> bool" where
  "finite_quotient concs stoich \<longleftrightarrow>
     (\<forall>(nr, conc) \<in> set (zip stoich concs). nr < 0 \<longrightarrow> conc \<noteq> 0)"

text \<open>
  What the scalar bracketing root-finder promises (idealised to exact roots): a number it
  returns lies in the bracket and is a root of the function. Nothing is promised about
  when it returns.
\<close>

definition bracketing_root_finder :: "root_finder \<Rightarrow> bool" where
  "bracketing_root_finder brentq \<longleftrightarrow>
     (\<forall>f a b r. brentq f a b = Inr r \<longrightarrow> a \<le> r \<and> r \<le> b \<and> f r = Inr 0)"

text \<open>
  A root-finder that meets this contract by testing one candidate; it stands for the
  external one where a concrete instance is needed.
\<close>

definition candidate_root_finder :: "real \<Rightarrow> root_finder" where
  "candidate_root_finder r f a b =
     (if a \<le> r \<and> r \<le> b \<and> f r = Inr 0 then Inr r
      else Inl (ValueError ''no root found''))"

section \<open>Substances, reactions and the equilibrium system\<close>

text \<open>
  \<^verbatim>\<open>EqSystem\<close> extends \<^verbatim>\<open>ReactionSystem\<close> of \<^verbatim>\<open>chempy.chemistry\<close>, which is not part
  of the source at hand, as the substance and reaction classes are not. What the code reads
  from them is kept as data: a substance carries its \<^verbatim>\<open>composition\<close> dictionary (the
  items in iteration order, key \<open>0\<close> being the charge) and its phase; a reaction carries
  the values of \<^verbatim>\<open>param\<close>, \<^verbatim>\<open>K()\<close>, \<^verbatim>\<open>Q(substances, \<cdot>)\<close>,
  \<^verbatim>\<open>net_stoich(substances)\<close>, \<^verbatim>\<open>precipitate_stoich(substances)\<close> (a triple whose second
  and third components are the coefficient and the index of the precipitating species)
  and \<^verbatim>\<open>has_precipitates(substances)\<close>; the system carries the results of
  \<^verbatim>\<open>stoichs(non_precip_rids)\<close> and \<^verbatim>\<open>composition_balance_vectors()\<close>.
  \<^verbatim>\<open>as_per_substance_array\<close> is the identity on the arrays considered here.
\<close>

record substance =
  composition :: "(int \<times> real) list"
  phase_idx :: nat

record equilibrium =
  rxn_param :: real
  rxn_K :: real
  rxn_Q :: "real list \<Rightarrow> real"
  net_stoich :: "int list"
  precipitate_stoich :: "int list \<times> int \<times> nat"
  has_precipitates :: bool

record eqsystem =
  substances :: "substance list"
  rxns :: "equilibrium list"
  stoichs :: "nat list \<Rightarrow> real list list"
  composition_balance_vectors :: "real list list \<times> int list"

definition ns :: "eqsystem \<Rightarrow> nat" where
  "ns sys = length (substances sys)"

definition nr :: "eqsystem \<Rightarrow> nat" where
  "nr sys = length (rxns sys)"

text \<open>Results collected in a loop; the first exception ends the loop.\<close>

fun collect :: "(error + 'a) list \<Rightarrow> error + 'a list" where
  "collect [] = Inr []"
| "collect (Inl e # rs) = Inl e"
| "collect (Inr v # rs) = (case collect rs of Inl e \<Rightarrow> Inl e | Inr vs \<Rightarrow> Inr (v # vs))"

text \<open>\<^verbatim>\<open>EqSystem.eq_constants(non_precip_rids=(), eq_params=None, small=0)\<close>\<close>

definition eq_constants :: "eqsystem \<Rightarrow> nat list \<Rightarrow> real list option \<Rightarrow> real \<Rightarrow> real list" where
  "eq_constants sys non_precip_rids eq_params small =
     (let eq_params' = (case eq_params of None \<Rightarrow> map rxn_param (rxns sys) | Some ps \<Rightarrow> ps)
      in map (\<lambda>(idx, eq). if idx \<in> set non_precip_rids then small else eq_params' ! idx)
             (enumerate 0 eq_params'))"

text \<open>
  \<^verbatim>\<open>EqSystem.upper_conc_bounds\<close> with the builtin \<^verbatim>\<open>min\<close>. The first loop fills the
  \<^verbatim>\<open>defaultdict(float)\<close> of component totals, a function that is \<open>0\<close> on keys never
  written; the second loop takes, for every substance, the least of the totals divided by
  the substance's coefficients, the charge left out, and raises on a substance that has no
  component but the charge.
\<close>

definition add_composition :: "real \<Rightarrow> (int \<times> real) list \<Rightarrow> (int \<Rightarrow> real) \<Rightarrow> (int \<Rightarrow> real)" where
  "add_composition conc items cc =
     fold (\<lambda>(comp_nr, coeff) cc'.
             if comp_nr = 0 then cc' else cc'(comp_nr := cc' comp_nr + coeff * conc))
          items cc"

definition composition_conc :: "substance list \<Rightarrow> real list \<Rightarrow> (int \<Rightarrow> real)" where
  "composition_conc subs init_concs =
     fold (\<lambda>(conc, s_obj) cc. add_composition conc (composition s_obj) cc)
          (zip init_concs subs) (\<lambda>_. 0)"

definition choose_from :: "(int \<Rightarrow> real) \<Rightarrow> substance \<Rightarrow> real list" where
  "choose_from cc s_obj =
     map (\<lambda>(comp_nr, coeff). cc comp_nr / coeff)
         (filter (\<lambda>(comp_nr, coeff). comp_nr \<noteq> 0) (composition s_obj))"

definition upper_conc_bounds :: "eqsystem \<Rightarrow> real list \<Rightarrow> error + real list" where
  "upper_conc_bounds sys init_concs =
     (let cc = composition_conc (substances sys) init_concs
      in collect (map (\<lambda>s_obj. py_min (choose_from cc s_obj)) (substances sys)))"

text \<open>\<^verbatim>\<open>EqSystem.phase_transfer_reaction_idxs\<close> and \<^verbatim>\<open>EqSystem.non_precip_rids\<close>\<close>

definition phase_transfer_reaction_idxs :: "eqsystem \<Rightarrow> nat list" where
  "phase_transfer_reaction_idxs sys =
     map fst (filter (\<lambda>(idx, rxn). has_precipitates rxn) (enumerate 0 (rxns sys)))"

definition non_precip_rids :: "eqsystem \<Rightarrow> bool list \<Rightarrow> nat list" where
  "non_precip_rids sys precipitates =
     map fst (filter (\<lambda>(idx, precip). \<not> precip)
                     (zip (phase_transfer_reaction_idxs sys) precipitates))"

text \<open>
  \<^verbatim>\<open>EqSystem.dissolved\<close>: a copy of the concentrations is updated in place, once for
  every reaction that has a precipitate, in the order of the reactions.
\<close>

definition dissolve_step :: "equilibrium \<Rightarrow> real list \<Rightarrow> error + real list" where
  "dissolve_step r new_concs =
     (if has_precipitates r
      then (case precipitate_stoich r of (s_net, s_stoich, s_idx) \<Rightarrow>
              if s_idx < length new_concs
              then np_inplace (-) new_concs
                     (map (\<lambda>n. new_concs ! s_idx / of_int s_stoich * of_int n) (net_stoich r))
              else Inl IndexError)
      else Inr new_concs)"

definition dissolved :: "eqsystem \<Rightarrow> real list \<Rightarrow> error + real list" where
  "dissolved sys concs =
     fold (\<lambda>r acc. case acc of Inl e \<Rightarrow> Inl e | Inr new_concs \<Rightarrow> dissolve_step r new_concs)
          (rxns sys) (Inr concs)"

text \<open>
  \<^verbatim>\<open>EqSystem._fw_cond_factory(ri, rtol=1e-14)\<close> and
  \<^verbatim>\<open>EqSystem._bw_cond_factory(ri, small)\<close>: the factory looks the reaction up and returns
  the predicate on a state \<open>x\<close> and the parameters \<open>p\<close>, which the predicate ignores.
\<close>

definition default_rtol :: real where
  "default_rtol = 1 / 10 ^ 14"

definition fw_cond_factory ::
  "eqsystem \<Rightarrow> nat \<Rightarrow> real \<Rightarrow> error + (real list \<Rightarrow> real list \<Rightarrow> error + bool)" where
  "fw_cond_factory sys ri rtol =
     (if ri < length (rxns sys)
      then (let rxn = rxns sys ! ri
            in Inr (\<lambda>x p.
                 case precipitate_stoich rxn of (s_net, precip_stoich_coeff, precip_idx) \<Rightarrow>
                   (case dissolved sys x of
                      Inl e \<Rightarrow> Inl e
                    | Inr d \<Rightarrow>
                        (let q = rxn_Q rxn d; k = rxn_K rxn
                         in if precip_stoich_coeff > 0 then Inr (q * (1 + rtol) < k)
                            else if precip_stoich_coeff < 0 then Inr (q > k * (1 + rtol))
                            else Inl NotImplementedError))))
      else Inl IndexError)"

definition bw_cond_factory ::
  "eqsystem \<Rightarrow> nat \<Rightarrow> real \<Rightarrow> error + (real list \<Rightarrow> real list \<Rightarrow> error + bool)" where
  "bw_cond_factory sys ri small =
     (if ri < length (rxns sys)
      then (let rxn = rxns sys ! ri
            in Inr (\<lambda>x p.
                 case precipitate_stoich rxn of (s_net, s_stoich, precipitate_idx) \<Rightarrow>
                   if precipitate_idx < length x
                   then (if x ! precipitate_idx < small then Inr False else Inr True)
                   else Inl IndexError))
      else Inl IndexError)"

text \<open>
  \<^verbatim>\<open>EqSystem._result_is_sane\<close>: the verdict together with the warnings emitted, in the
  order of emission.
\<close>

definition result_is_sane :: "eqsystem \<Rightarrow> real list \<Rightarrow> real list \<Rightarrow> error + (bool \<times> string list)" where
  "result_is_sane sys init_concs x =
     (case upper_conc_bounds sys init_concs of
        Inl e \<Rightarrow> Inl e
      | Inr sc_upper_bounds \<Rightarrow>
          (let neg_conc = list_ex (\<lambda>xi. xi < 0) x
           in case np_binop (\<lambda>xi b. xi > b) x (map (\<lambda>b. b * (1 + 1 / 10 ^ 12)) sc_upper_bounds) of
                Inl e \<Rightarrow> Inl e
              | Inr cmp \<Rightarrow>
                  (let too_much = list_ex (\<lambda>b. b) cmp
                   in if neg_conc \<or> too_much
                      then Inr (False,
                                (if neg_conc then [''Negative concentration''] else [])
                                @ (if too_much then [''Too much of at least one component''] else []))
                      else Inr (True, []))))"

text \<open>
  \<^verbatim>\<open>EqSystem._solve\<close>, given the system of non-linear equations already built: the
  solver is an external collaborator, a parameter that maps the starting point and the
  parameters to a solution and its information dictionary, of which \<^verbatim>\<open>success\<close> is read.
  The result is the triple returned and the warnings emitted.
\<close>

record sol_info =
  success :: bool

type_synonym neqsys = "real list \<Rightarrow> real list \<Rightarrow> error + (real list \<times> sol_info)"

definition private_solve ::
  "eqsystem \<Rightarrow> neqsys \<Rightarrow> real list \<Rightarrow> real list option
     \<Rightarrow> error + ((real list \<times> sol_info \<times> bool) \<times> string list)" where
  "private_solve sys neqsys_solve init_concs x0 =
     (let x0' = (case x0 of None \<Rightarrow> init_concs | Some v \<Rightarrow> v);
          params = init_concs @ eq_constants sys [] None 0
      in case neqsys_solve x0' params of
           Inl e \<Rightarrow> Inl e
         | Inr (x, sol) \<Rightarrow>
             (let w = (if \<not> success sol
                       then [''Root-finding indicated as failed by solver.''] else [])
              in case result_is_sane sys init_concs x of
                   Inl e \<Rightarrow> Inl e
                 | Inr (sane, w') \<Rightarrow> Inr ((x, sol, sane), w @ w')))"

text \<open>
  What the claims about the dissolved projection presuppose of a precipitation reaction
  and of the system: the vectors have the length of the concentration vector, the
  coefficient returned by \<^verbatim>\<open>precipitate_stoich\<close> is the nonzero net coefficient of the
  precipitating species (the projection divides by it), and no precipitating species takes
  part in another precipitation reaction.
\<close>

definition precip_idx :: "equilibrium \<Rightarrow> nat" where
  "precip_idx r = snd (snd (precipitate_stoich r))"

definition precip_coeff :: "equilibrium \<Rightarrow> int" where
  "precip_coeff r = fst (snd (precipitate_stoich r))"

definition wf_precipitation :: "nat \<Rightarrow> equilibrium \<Rightarrow> bool" where
  "wf_precipitation n r \<longleftrightarrow>
     length (net_stoich r) = n \<and> precip_idx r < n
     \<and> precip_coeff r = net_stoich r ! precip_idx r \<and> precip_coeff r \<noteq> 0"

definition nonzero_precipitate_coeffs :: "eqsystem \<Rightarrow> bool" where
  "nonzero_precipitate_coeffs sys \<longleftrightarrow>
     (\<forall>r \<in> set (rxns sys). has_precipitates r \<longrightarrow> precip_coeff r \<noteq> 0)"

definition exclusive_precipitates :: "equilibrium list \<Rightarrow> bool" where
  "exclusive_precipitates rs \<longleftrightarrow>
     (\<forall>i < length rs. \<forall>j < length rs.
        i \<noteq> j \<and> has_precipitates (rs ! i) \<and> has_precipitates (rs ! j)
          \<longrightarrow> net_stoich (rs ! j) ! precip_idx (rs ! i) = 0)"

text \<open>
  The two-reaction system of the specification's examples: species \<open>A\<close>, \<open>B\<close>, \<open>C\<close> and
  the solid \<open>D\<close>; \<open>A + B \<rightleftharpoons> C\<close> with \<open>K = 10\<^sup>-\<^sup>5\<close> and the precipitation \<open>C \<rightleftharpoons> D\<close> with
  \<open>K = 10\<^sup>-\<^sup>2\<close>; the conserved quantities are \<open>A + C + D\<close> and \<open>B + C + D\<close>. The
  quotient of the precipitation leaves the solid out.
\<close>

definition example_substances :: "substance list" where
  "example_substances =
     [\<lparr>composition = [(1, 1)], phase_idx = 0\<rparr>,
      \<lparr>composition = [(2, 1)], phase_idx = 0\<rparr>,
      \<lparr>composition = [(1, 1), (2, 1)], phase_idx = 0\<rparr>,
      \<lparr>composition = [(1, 1), (2, 1)], phase_idx = 1\<rparr>]"

definition example_rxns :: "equilibrium list" where
  "example_rxns =
     [\<lparr>rxn_param = 1 / 10 ^ 5, rxn_K = 1 / 10 ^ 5,
       rxn_Q = (\<lambda>concs. equilibrium_quotient concs [- 1, - 1, 1, 0]),
       net_stoich = [- 1, - 1, 1, 0],
       precipitate_stoich = ([0, 0, 0, 0], 0, 0),
       has_precipitates = False\<rparr>,
      \<lparr>rxn_param = 1 / 10 ^ 2, rxn_K = 1 / 10 ^ 2,
       rxn_Q = (\<lambda>concs. equilibrium_quotient concs [0, 0, - 1, 0]),
       net_stoich = [0, 0, - 1, 1],
       precipitate_stoich = ([0, 0, 0, 1], 1, 3),
       has_precipitates = True\<rparr>]"

definition example_system :: eqsystem where
  "example_system =
     \<lparr>substances = example_substances,
      rxns = example_rxns,
      stoichs = (\<lambda>rids. [[- 1, - 1, 1, 0],
                           if 1 \<in> set rids then [0, 0, 0, - 1] else [0, 0, - 1, 0]]),
      composition_balance_vectors = ([[1, 0, 1, 1], [0, 1, 1, 1]], [1, 2])\<rparr>"

text \<open>The two predicates of reaction \<open>ri\<close>, built by their factories and applied.\<close>

definition fw_cond :: "eqsystem \<Rightarrow> nat \<Rightarrow> real \<Rightarrow> real list \<Rightarrow> real list \<Rightarrow> error + bool" where
  "fw_cond sys ri rtol x p =
     (case fw_cond_factory sys ri rtol of Inl e \<Rightarrow> Inl e | Inr cond \<Rightarrow> cond x p)"

definition bw_cond :: "eqsystem \<Rightarrow> nat \<Rightarrow> real \<Rightarrow> real list \<Rightarrow> real list \<Rightarrow> error + bool" where
  "bw_cond sys ri small x p =
     (case bw_cond_factory sys ri small of Inl e \<Rightarrow> Inl e | Inr cond \<Rightarrow> cond x p)"

text \<open>
  Modelled from the spec: \<^verbatim>\<open>vec_dot_vec\<close> and \<^verbatim>\<open>mat_dot_vec\<close> of \<^verbatim>\<open>chempy._util\<close>
  are not part of the source at hand. They are the inner product of two vectors and the
  product of a matrix (a list of rows) and a vector, the linear forms of the residuals;
  the optional third argument of \<^verbatim>\<open>mat_dot_vec\<close> is a vector of terms added row by row.
\<close>

definition vec_dot_vec :: "real list \<Rightarrow> real list \<Rightarrow> real" where
  "vec_dot_vec vec1 vec2 = sum_list (map2 (*) vec1 vec2)"

definition mat_dot_vec :: "real list list \<Rightarrow> real list \<Rightarrow> real list option \<Rightarrow> real list" where
  "mat_dot_vec iter_mat iter_vec iter_term =
     (case iter_term of
        None \<Rightarrow> map (\<lambda>row. vec_dot_vec row iter_vec) iter_mat
      | Some terms \<Rightarrow> map2 (\<lambda>row term. vec_dot_vec row iter_vec + term) iter_mat terms)"

text \<open>
  \<^verbatim>\<open>np.dot\<close> of a matrix and a vector; rows of another length than the vector raise.
\<close>

definition np_dot :: "real list list \<Rightarrow> real list \<Rightarrow> error + real list" where
  "np_dot A v =
     (if list_all (\<lambda>row. length row = length v) A then Inr (map (\<lambda>row. vec_dot_vec row v) A)
      else Inl (ValueError ''shapes not aligned''))"

text \<open>\<^verbatim>\<open>EqSystem.composition_conservation\<close>\<close>

definition composition_conservation ::
  "eqsystem \<Rightarrow> real list \<Rightarrow> real list \<Rightarrow> error + (int list \<times> real list \<times> real list)" where
  "composition_conservation sys concs init_concs =
     (case composition_balance_vectors sys of (composition_vecs, comp_keys) \<Rightarrow>
        (case np_dot composition_vecs concs of
           Inl e \<Rightarrow> Inl e
         | Inr now \<Rightarrow>
             (case np_dot composition_vecs init_concs of
                Inl e \<Rightarrow> Inl e
              | Inr before \<Rightarrow> Inr (comp_keys, now, before))))"

text \<open>
  The upper bounds divide by the weights of the compositions, so that these are taken to
  be nonzero. The two violations the sanity check looks for, as the specification words
  them: some concentration is negative; some concentration exceeds its upper bound by more
  than the relative tolerance \<open>10\<^sup>-\<^sup>1\<^sup>2\<close>. And equality within a relative tolerance.
\<close>

definition nonzero_weights :: "eqsystem \<Rightarrow> bool" where
  "nonzero_weights sys \<longleftrightarrow>
     (\<forall>s_obj \<in> set (substances sys). \<forall>(comp_nr, coeff) \<in> set (composition s_obj).
        comp_nr \<noteq> 0 \<longrightarrow> coeff \<noteq> 0)"

definition negative_conc :: "real list \<Rightarrow> bool" where
  "negative_conc x \<longleftrightarrow> (\<exists>i < length x. x ! i < 0)"

definition exceeds_bound :: "real list \<Rightarrow> real list \<Rightarrow> bool" where
  "exceeds_bound bounds x \<longleftrightarrow> (\<exists>i < length x. x ! i > bounds ! i * (1 + 1 / 10 ^ 12))"

definition within_rtol :: "real \<Rightarrow> real \<Rightarrow> real \<Rightarrow> bool" where
  "within_rtol rtol a b \<longleftrightarrow> \<bar>a - b\<bar> \<le> rtol * \<bar>b\<bar>"

section \<open>The variable-transform strategies\<close>

text \<open>
  A \<^verbatim>\<open>_NumSys\<close> instance holds the equilibrium system, the two row-reduction flags and
  the vector that says which precipitates are present; its backend supplies \<open>ln\<close> and
  \<open>exp\<close>. The class attribute \<^verbatim>\<open>small\<close> is \<open>0\<close> unless a subclass overrides it.
\<close>

record numsys =
  eqsys :: eqsystem
  rref_equil :: bool
  rref_preserv :: bool
  precipitates :: "bool list"

definition NumSys_small :: real where
  "NumSys_small = 0"

definition NumSysSquare_small :: real where
  "NumSysSquare_small = 1 / 10 ^ 35"

definition NumSysLog_small :: real where
  "NumSysLog_small = exp (- 80)"

text \<open>
  Modelled from the spec: \<^verbatim>\<open>linear_exprs\<close> and \<^verbatim>\<open>linear_rref\<close> belong to the external
  package that builds the systems of equations. \<^verbatim>\<open>linear_exprs(A, x, b, rref)\<close> is the
  linear balance form \<open>A\<cdot>x - b\<close>, row by row, taken after a row reduction of \<open>A\<close> and \<open>b\<close>
  when \<^verbatim>\<open>rref\<close> is set. The row reduction is a parameter of the model.
\<close>

type_synonym row_reduction = "real list list \<Rightarrow> real list \<Rightarrow> real list list \<times> real list"

definition linear_exprs ::
  "row_reduction \<Rightarrow> real list list \<Rightarrow> real list \<Rightarrow> real list \<Rightarrow> bool \<Rightarrow> real list" where
  "linear_exprs linear_rref A x b rref =
     (if rref
      then (case linear_rref A b of (rA, rb) \<Rightarrow>
              map2 (\<lambda>row rhs. vec_dot_vec row x - rhs) rA rb)
      else map2 (\<lambda>row v. vec_dot_vec row x - v) A b)"

text \<open>\<^verbatim>\<open>EqSystem.stoichs_constants\<close>, \<^verbatim>\<open>_NumSys._get_A_ks\<close>, \<^verbatim>\<open>_NumSys._inits_and_eq_params\<close>\<close>

definition stoichs_constants ::
  "eqsystem \<Rightarrow> row_reduction \<Rightarrow> real list \<Rightarrow> bool \<Rightarrow> nat list \<Rightarrow> real list list \<times> real list" where
  "stoichs_constants sys linear_rref eq_params rref rids =
     (if rref
      then (case linear_rref (stoichs sys rids) (map ln eq_params) of (rA, rb) \<Rightarrow>
              (rA, map exp rb))
      else (stoichs sys rids, eq_params))"

definition get_A_ks ::
  "numsys \<Rightarrow> real \<Rightarrow> row_reduction \<Rightarrow> real list \<Rightarrow> real list list \<times> real list" where
  "get_A_ks self small linear_rref eq_params =
     (let rids = non_precip_rids (eqsys self) (precipitates self)
      in stoichs_constants (eqsys self) linear_rref
           (eq_constants (eqsys self) rids (Some eq_params) small)
           (rref_equil self) rids)"

definition inits_and_eq_params :: "numsys \<Rightarrow> real list \<Rightarrow> real list \<times> real list" where
  "inits_and_eq_params self params =
     (take (ns (eqsys self)) params, drop (ns (eqsys self)) params)"

text \<open>\<^verbatim>\<open>NumSysLog\<close>\<close>

definition NumSysLog_pre_processor :: "real list \<Rightarrow> real list \<Rightarrow> real list \<times> real list" where
  "NumSysLog_pre_processor x params = (map (\<lambda>v. ln (v + NumSysLog_small)) x, params)"

definition NumSysLog_post_processor :: "real list \<Rightarrow> real list \<Rightarrow> real list \<times> real list" where
  "NumSysLog_post_processor x params = (map exp x, params)"

definition NumSysLog_f :: "numsys \<Rightarrow> row_reduction \<Rightarrow> real list \<Rightarrow> real list \<Rightarrow> real list" where
  "NumSysLog_f self linear_rref yvec params =
     (case inits_and_eq_params self params of (init_concs, eq_params) \<Rightarrow>
        (case get_A_ks self NumSysLog_small linear_rref eq_params of (A, ks) \<Rightarrow>
           (let f_equil = mat_dot_vec A yvec (Some (map (\<lambda>k. - ln k) ks))
            in case composition_balance_vectors (eqsys self) of (B, comp_nrs) \<Rightarrow>
                 (let f_preserv = linear_exprs linear_rref B (map exp yvec)
                                    (mat_dot_vec B init_concs None) (rref_preserv self)
                  in f_equil @ f_preserv))))"

text \<open>\<^verbatim>\<open>NumSysSquare\<close>\<close>

definition NumSysSquare_pre_processor :: "real list \<Rightarrow> real list \<Rightarrow> real list \<times> real list" where
  "NumSysSquare_pre_processor x params = (map (\<lambda>v. sqrt \<bar>v\<bar>) x, params)"

definition NumSysSquare_post_processor :: "real list \<Rightarrow> real list \<Rightarrow> real list \<times> real list" where
  "NumSysSquare_post_processor x params = (map (\<lambda>v. v ^ 2) x, params)"

text \<open>\<^verbatim>\<open>NumSysLinRel\<close>\<close>

definition max_concs :: "numsys \<Rightarrow> real list \<Rightarrow> error + real list" where
  "max_concs self params =
     (let init_concs = take (ns (eqsys self)) params
      in upper_conc_bounds (eqsys self) init_concs)"

definition NumSysLinRel_pre_processor ::
  "numsys \<Rightarrow> real list \<Rightarrow> real list \<Rightarrow> error + (real list \<times> real list)" where
  "NumSysLinRel_pre_processor self x params =
     (case max_concs self params of
        Inl e \<Rightarrow> Inl e
      | Inr m \<Rightarrow> map_sum id (\<lambda>y. (y, params)) (np_binop (/) x m))"

definition NumSysLinRel_post_processor ::
  "numsys \<Rightarrow> real list \<Rightarrow> real list \<Rightarrow> error + (real list \<times> real list)" where
  "NumSysLinRel_post_processor self x params =
     (case max_concs self params of
        Inl e \<Rightarrow> Inl e
      | Inr m \<Rightarrow> map_sum id (\<lambda>y. (y, params)) (np_binop (*) x m))"

text \<open>\<^verbatim>\<open>NumSysLinTanh\<close>\<close>

definition NumSysLinTanh_pre_processor ::
  "numsys \<Rightarrow> real list \<Rightarrow> real list \<Rightarrow> error + (real list \<times> real list)" where
  "NumSysLinTanh_pre_processor self x params =
     (case upper_conc_bounds (eqsys self) (take (ns (eqsys self)) params) of
        Inl e \<Rightarrow> Inl e
      | Inr ymax \<Rightarrow>
          map_sum id (\<lambda>q. (map (\<lambda>v. artanh ((v - 4) / 5)) q, params))
            (np_binop (\<lambda>xi ym. 8 * xi / ym) x ymax))"

definition NumSysLinTanh_post_processor ::
  "numsys \<Rightarrow> real list \<Rightarrow> real list \<Rightarrow> error + (real list \<times> real list)" where
  "NumSysLinTanh_post_processor self x params =
     (case upper_conc_bounds (eqsys self) (take (ns (eqsys self)) params) of
        Inl e \<Rightarrow> Inl e
      | Inr ymax \<Rightarrow>
          map_sum id (\<lambda>y. (y, params))
            (np_binop (\<lambda>ym t. ym * t / 8) ymax (map (\<lambda>v. 4 + 5 * tanh v) x)))"

text \<open>\<^verbatim>\<open>post_process(pre_process(x))\<close> for processors that may raise.\<close>

definition round_trip ::
  "(real list \<Rightarrow> real list \<Rightarrow> error + (real list \<times> real list))
     \<Rightarrow> (real list \<Rightarrow> real list \<Rightarrow> error + (real list \<times> real list))
     \<Rightarrow> real list \<Rightarrow> real list \<Rightarrow> error + (real list \<times> real list)" where
  "round_trip pre post x params =
     (case pre x params of Inl e \<Rightarrow> Inl e | Inr (y, p) \<Rightarrow> post y p)"

text \<open>
  The residual vector of the Log strategy as the specification words it: equilibrium rows
  \<open>A\<cdot>y + log K\<close>, then the conservation rows \<open>B\<cdot>exp y - B\<cdot>init_concs\<close>.
\<close>

definition spec_log_residuals ::
  "real list list \<Rightarrow> real list \<Rightarrow> real list list \<Rightarrow> real list \<Rightarrow> real list \<Rightarrow> real list" where
  "spec_log_residuals A ks B init_concs y =
     map2 (\<lambda>row k. vec_dot_vec row y + ln k) A ks
     @ map (\<lambda>row. vec_dot_vec row (map exp y) - vec_dot_vec row init_concs) B"

text \<open>
  The isomerisation \<open>A \<rightleftharpoons> B\<close> with \<open>K = e\<close>, no solid phase, one conserved quantity; and
  the strategy instances used on the two example systems (no row reduction, no precipitate
  present).
\<close>

definition isomer_system :: eqsystem where
  "isomer_system =
     \<lparr>substances = [\<lparr>composition = [(1, 1)], phase_idx = 0\<rparr>,
                    \<lparr>composition = [(1, 1)], phase_idx = 0\<rparr>],
      rxns = [\<lparr>rxn_param = exp 1, rxn_K = exp 1,
               rxn_Q = (\<lambda>concs. equilibrium_quotient concs [- 1, 1]),
               net_stoich = [- 1, 1],
               precipitate_stoich = ([0, 0], 0, 0),
               has_precipitates = False\<rparr>],
      stoichs = (\<lambda>rids. [[- 1, 1]]),
      composition_balance_vectors = ([[1, 1]], [1])\<rparr>"

definition isomer_numsys :: numsys where
  "isomer_numsys =
     \<lparr>eqsys = isomer_system, rref_equil = False, rref_preserv = False, precipitates = []\<rparr>"

definition example_numsys :: numsys where
  "example_numsys =
     \<lparr>eqsys = example_system, rref_equil = False, rref_preserv = False,
      precipitates = [False]\<rparr>"

section \<open>Verified properties\<close>

subsection \<open>The reaction-coordinate interval\<close>

lemma np_max_Max: "xs \<noteq> [] \<Longrightarrow> np_max xs = Inr (Max (set xs))"
  by (cases xs) (simp_all add: Max.set_eq_fold[symmetric])

lemma np_min_Min: "xs \<noteq> [] \<Longrightarrow> np_min xs = Inr (Min (set xs))"
  by (cases xs) (simp_all add: Min.set_eq_fold[symmetric])

lemma get_rc_interval_char:
  assumes "length stoich = length c0"
  shows "get_rc_interval stoich c0 =
           (if neg_ratios c0 stoich = {} \<and> pos_ratios c0 stoich = {}
            then Inl (ValueError ''0-interval'')
            else Inr (if pos_ratios c0 stoich = {} then PyInt 0 else NpFloat (rc_lower c0 stoich),
                      if neg_ratios c0 stoich = {} then PyInt 0 else NpFloat (rc_upper c0 stoich)))"
proof -
  let ?ls = "rc_limits c0 stoich"
  have lim: "np_binop (\<lambda>c s. c / of_int s) c0 stoich = Inr ?ls"
    using assms by (simp add: np_binop_def rc_limits_def)
  have negset: "set (filter (\<lambda>l. l < 0) ?ls) = neg_ratios c0 stoich"
    by (auto simp: neg_ratios_def)
  have posset: "set (filter (\<lambda>l. 0 < l) ?ls) = pos_ratios c0 stoich"
    by (auto simp: pos_ratios_def)
  have nege: "list_ex (\<lambda>l. l < 0) ?ls \<longleftrightarrow> neg_ratios c0 stoich \<noteq> {}"
    by (auto simp: neg_ratios_def list_ex_iff)
  have pose: "list_ex (\<lambda>l. 0 < l) ?ls \<longleftrightarrow> pos_ratios c0 stoich \<noteq> {}"
    by (auto simp: pos_ratios_def list_ex_iff)
  have up: "neg_ratios c0 stoich \<noteq> {} \<Longrightarrow>
      np_max (filter (\<lambda>l. l < 0) ?ls) = Inr (Max (neg_ratios c0 stoich))"
    using np_max_Max[of "filter (\<lambda>l. l < 0) ?ls"] negset by (metis set_empty)
  have lo: "pos_ratios c0 stoich \<noteq> {} \<Longrightarrow>
      np_min (filter (\<lambda>l. 0 < l) ?ls) = Inr (Min (pos_ratios c0 stoich))"
    using np_min_Min[of "filter (\<lambda>l. 0 < l) ?ls"] posset by (metis set_empty)
  show ?thesis
    unfolding get_rc_interval_def lim
    by (simp add: nege pose up lo rc_upper_def rc_lower_def)
qed

lemma rc_upper_pos: "neg_ratios c0 stoich \<noteq> {} \<Longrightarrow> 0 < rc_upper c0 stoich"
proof -
  assume ne: "neg_ratios c0 stoich \<noteq> {}"
  have fin: "finite (neg_ratios c0 stoich)" by (simp add: neg_ratios_def)
  have "Max (neg_ratios c0 stoich) \<in> neg_ratios c0 stoich" using Max_in[OF fin ne] .
  then show ?thesis using ne by (simp add: rc_upper_def neg_ratios_def)
qed

lemma rc_lower_neg: "pos_ratios c0 stoich \<noteq> {} \<Longrightarrow> rc_lower c0 stoich < 0"
proof -
  assume ne: "pos_ratios c0 stoich \<noteq> {}"
  have fin: "finite (pos_ratios c0 stoich)" by (simp add: pos_ratios_def)
  have "Min (pos_ratios c0 stoich) \<in> pos_ratios c0 stoich" using Min_in[OF fin ne] .
  then show ?thesis using ne by (simp add: rc_lower_def pos_ratios_def)
qed

lemma solve_equilibrium_propagates:
  assumes "np_take c0 (np_nonzero stoich) = Inr c0_m"
      and "get_rc_interval (map (\<lambda>i. stoich ! i) (np_nonzero stoich)) c0_m = Inl e"
  shows "solve_equilibrium brentq c0 stoich K ap = Inl e"
  using assms by (simp add: solve_equilibrium_def solve_equilibrium_coord_def)

text \<open>
  Claim C5. On vectors of equal length restricted to nonzero coefficients,
  \<^verbatim>\<open>get_rc_interval\<close> returns an interval as soon as some ratio \<open>c0\<^sub>i / stoich\<^sub>i\<close> is
  nonzero, and the interval it returns has as upper bound the negated maximum of the
  negative ratios (\<open>0\<close> if there is none) and as lower bound the negated minimum of the
  positive ratios (\<open>0\<close> if there is none).
\<close>

theorem get_rc_interval_bounds:
  assumes "length stoich = length c0" and "0 \<notin> set stoich"
  shows "(neg_ratios c0 stoich \<noteq> {} \<or> pos_ratios c0 stoich \<noteq> {} \<longrightarrow>
            (\<exists>lower upper. get_rc_interval stoich c0 = Inr (lower, upper)))
       \<and> (\<forall>lower upper. get_rc_interval stoich c0 = Inr (lower, upper) \<longrightarrow>
            num_val upper = rc_upper c0 stoich \<and> num_val lower = rc_lower c0 stoich)"
  using get_rc_interval_char[OF assms(1)]
  by (auto simp: rc_upper_def rc_lower_def split: if_splits)

theorem get_rc_interval_bounds_witness:
  "get_rc_interval [- 1, 1, 2] [2, 0, 3] = Inr (NpFloat (- (3 / 2)), NpFloat 2)
   \<and> rc_upper [2, 0, 3] [- 1, 1, 2] = 2 \<and> rc_lower [2, 0, 3] [- 1, 1, 2] = - (3 / 2)"
proof -
  have g: "get_rc_interval [- 1, 1, 2] [2, 0, 3] = Inr (NpFloat (- (3 / 2)), NpFloat 2)"
    by (simp add: get_rc_interval_def np_binop_def)
  have l: "length [- 1, 1, 2 :: int] = length [2, 0, 3 :: real]" by simp
  have z: "0 \<notin> set [- 1, 1, 2 :: int]" by simp
  from get_rc_interval_bounds[OF l z] g show ?thesis by simp
qed

text \<open>
  Claim C6. \<^verbatim>\<open>get_rc_interval\<close> raises the \<^verbatim>\<open>0-interval\<close> error exactly when the
  feasible interval collapses to \<open>[0, 0]\<close>; otherwise it returns an interval different
  from \<open>(0, 0)\<close>; and \<^verbatim>\<open>solve_equilibrium\<close>, which calls it on the vectors restricted
  to the nonzero coefficients, lets the error through.
\<close>

theorem zero_interval_error:
  assumes "length stoich = length c0" and "0 \<notin> set stoich"
  shows "(get_rc_interval stoich c0 = Inl (ValueError ''0-interval'')
            \<longleftrightarrow> rc_lower c0 stoich = 0 \<and> rc_upper c0 stoich = 0)
       \<and> (get_rc_interval stoich c0 = Inl (ValueError ''0-interval'')
            \<or> (\<exists>lower upper. get_rc_interval stoich c0 = Inr (lower, upper)
                 \<and> (num_val lower, num_val upper) \<noteq> (0, 0)))
       \<and> (np_take c0' (np_nonzero stoich') = Inr c0
             \<and> map (\<lambda>i. stoich' ! i) (np_nonzero stoich') = stoich
             \<and> get_rc_interval stoich c0 = Inl (ValueError ''0-interval'')
             \<longrightarrow> solve_equilibrium brentq c0' stoich' K ap = Inl (ValueError ''0-interval''))"
proof -
  note ch = get_rc_interval_char[OF assms(1)]
  have up: "neg_ratios c0 stoich \<noteq> {} \<Longrightarrow> rc_upper c0 stoich \<noteq> 0"
    using rc_upper_pos[of c0 stoich] by simp
  have lo: "pos_ratios c0 stoich \<noteq> {} \<Longrightarrow> rc_lower c0 stoich \<noteq> 0"
    using rc_lower_neg[of c0 stoich] by simp
  have up0: "neg_ratios c0 stoich = {} \<Longrightarrow> rc_upper c0 stoich = 0"
    by (simp add: rc_upper_def)
  have lo0: "pos_ratios c0 stoich = {} \<Longrightarrow> rc_lower c0 stoich = 0"
    by (simp add: rc_lower_def)
  have a: "get_rc_interval stoich c0 = Inl (ValueError ''0-interval'')
            \<longleftrightarrow> rc_lower c0 stoich = 0 \<and> rc_upper c0 stoich = 0"
    using ch up lo up0 lo0
    by (cases "neg_ratios c0 stoich = {}"; cases "pos_ratios c0 stoich = {}") auto
  have b: "get_rc_interval stoich c0 = Inl (ValueError ''0-interval'')
            \<or> (\<exists>lower upper. get_rc_interval stoich c0 = Inr (lower, upper)
                 \<and> (num_val lower, num_val upper) \<noteq> (0, 0))"
    using ch up lo
    by (cases "neg_ratios c0 stoich = {}"; cases "pos_ratios c0 stoich = {}") auto
  have c: "np_take c0' (np_nonzero stoich') = Inr c0
             \<and> map (\<lambda>i. stoich' ! i) (np_nonzero stoich') = stoich
             \<and> get_rc_interval stoich c0 = Inl (ValueError ''0-interval'')
             \<longrightarrow> solve_equilibrium brentq c0' stoich' K ap = Inl (ValueError ''0-interval'')"
    using solve_equilibrium_propagates by blast
  from a b c show ?thesis by blast
qed

theorem zero_interval_error_witness:
  "get_rc_interval [1, - 1] [0, 0] = Inl (ValueError ''0-interval'')
   \<and> rc_lower [0, 0] [1, - 1] = 0 \<and> rc_upper [0, 0] [1, - 1] = 0
   \<and> solve_equilibrium (\<lambda>f a b. Inr 0) [0, 0, 5] [1, - 1, 0] 1 None = Inl (ValueError ''0-interval'')"
proof -
  have g: "get_rc_interval [1, - 1] [0, 0] = Inl (ValueError ''0-interval'')"
    by (simp add: get_rc_interval_def np_binop_def)
  have l: "length [1, - 1 :: int] = length [0, 0 :: real]" by simp
  have z: "0 \<notin> set [1, - 1 :: int]" by simp
  have nz: "np_nonzero [1, - 1, 0] = [0, 1]"
    by (simp add: np_nonzero_def upt_rec)
  have t: "np_take [0, 0, 5 :: real] (np_nonzero [1, - 1, 0]) = Inr [0, 0]"
    by (simp add: nz np_take_def)
  have m: "map (\<lambda>i. [1, - 1, 0 :: int] ! i) (np_nonzero [1, - 1, 0]) = [1, - 1]"
    by (simp add: nz)
  from zero_interval_error[OF l z, of "[0, 0, 5]" "[1, - 1, 0]" "\<lambda>f a b. Inr 0" 1 None] g t m
  show ?thesis by simp
qed

subsection \<open>The single-reaction solve\<close>

lemma candidate_root_finder_ok: "bracketing_root_finder (candidate_root_finder r)"
  by (auto simp: bracketing_root_finder_def candidate_root_finder_def split: if_splits)

lemma zip_as_map_nth:
  "length xs = length ys \<Longrightarrow> zip xs ys = map (\<lambda>i. (xs ! i, ys ! i)) [0..<length ys]"
  by (rule nth_equalityI) auto

lemma mask_stoich: "map (\<lambda>i. stoich ! i) (np_nonzero stoich) = filter (\<lambda>s. s \<noteq> 0) stoich"
proof -
  have "filter (\<lambda>s. s \<noteq> 0) (map (\<lambda>i. stoich ! i) [0..<length stoich])
          = map (\<lambda>i. stoich ! i) (np_nonzero stoich)"
    by (simp add: filter_map comp_def np_nonzero_def)
  then show ?thesis by (simp add: map_nth)
qed

lemma mask_c0:
  assumes "length c0 = length stoich"
  shows "np_take c0 (np_nonzero stoich)
           = Inr (map fst (filter (\<lambda>(c, s). s \<noteq> 0) (zip c0 stoich)))"
proof -
  have "list_all (\<lambda>i. i < length c0) (np_nonzero stoich)"
    using assms by (simp add: np_nonzero_def list_all_iff)
  moreover have "map fst (filter (\<lambda>(c, s). s \<noteq> 0) (zip c0 stoich))
                   = map (\<lambda>i. c0 ! i) (np_nonzero stoich)"
    by (simp add: zip_as_map_nth[OF assms] filter_map comp_def np_nonzero_def)
  ultimately show ?thesis by (simp add: np_take_def)
qed

lemma quotient_mask:
  assumes "length c0 = length stoich"
  shows "fold (\<lambda>(nr, conc) tot. tot * (conc powi nr))
           (zip (filter (\<lambda>s. s \<noteq> 0) stoich)
                (map2 (+) (map fst (filter (\<lambda>(c, s). s \<noteq> 0) (zip c0 stoich)))
                          (map (\<lambda>s. of_int s * rc) (filter (\<lambda>s. s \<noteq> 0) stoich)))) a
       = fold (\<lambda>(nr, conc) tot. tot * (conc powi nr))
           (zip stoich (map2 (\<lambda>c s. c + rc * of_int s) c0 stoich)) (a :: real)"
  using assms
  by (induction c0 stoich arbitrary: a rule: list_induct2) (simp_all add: mult.commute)

lemma masked_result:
  assumes "length c0 = length stoich"
  shows "map (\<lambda>i. map2 (\<lambda>c s. c + (rc :: real) * of_int s) c0 stoich ! i) (np_nonzero stoich)
       = map2 (+) (map fst (filter (\<lambda>(c, s). s \<noteq> 0) (zip c0 stoich)))
                  (map (\<lambda>s. of_int s * rc) (filter (\<lambda>s. s \<noteq> 0) stoich))"
proof -
  have "map (\<lambda>i. map2 (\<lambda>c s. c + rc * of_int s) c0 stoich ! i) (np_nonzero stoich)
      = map (\<lambda>(c, s). c + rc * of_int s) (filter (\<lambda>(c, s). s \<noteq> 0) (zip c0 stoich))"
    using assms by (simp add: zip_as_map_nth[OF assms] filter_map comp_def np_nonzero_def)
  also have "\<dots> = map2 (+) (map fst (filter (\<lambda>(c, s). s \<noteq> 0) (zip c0 stoich)))
                  (map (\<lambda>s. of_int s * rc) (filter (\<lambda>s. s \<noteq> 0) stoich))"
    using assms by (induction c0 stoich rule: list_induct2) (simp_all add: mult.commute)
  finally show ?thesis .
qed

text \<open>
  Claim C4, as amended. For vectors of equal length whose feasible bracket is
  non-degenerate, whenever the root-finder returns for the bracket (and keeps its
  contract), \<^verbatim>\<open>solve_equilibrium\<close> returns \<open>c0 + rc\<cdot>stoich\<close>, where \<open>rc\<close> lies in the
  bracket computed from the species with nonzero coefficient and is a root of the residual
  on those species; then, the returned vector raising no zero concentration to a negative
  power, \<open>K\<close> is the reaction quotient of the returned vector (all species), times the
  activity product of its restriction to the species with nonzero coefficient when an
  activity callback is given.
\<close>

theorem solve_equilibrium_root:
  assumes len: "length c0 = length stoich"
      and c0m: "c0_m = map (\<lambda>i. c0 ! i) (np_nonzero stoich)"
      and stm: "stoich_m = map (\<lambda>i. stoich ! i) (np_nonzero stoich)"
      and iv: "get_rc_interval stoich_m c0_m = Inr (lower, upper)"
      and spec: "bracketing_root_finder brentq"
      and ret: "brentq (\<lambda>rc. equilibrium_residual rc c0_m stoich_m K ap)
                  (num_val lower) (num_val upper) = Inr rc"
      and res: "result = map2 (\<lambda>c s. c + rc * of_int s) c0 stoich"
      and fin: "finite_quotient result stoich"
  shows "solve_equilibrium brentq c0 stoich K ap = Inr result
       \<and> num_val lower \<le> rc \<and> rc \<le> num_val upper
       \<and> equilibrium_residual rc c0_m stoich_m K ap = Inr 0
       \<and> K = equilibrium_quotient result stoich
               * (case ap of None \<Rightarrow> 1
                  | Some a \<Rightarrow> a (map (\<lambda>i. result ! i) (np_nonzero stoich)))"
proof -
  have tk: "np_take c0 (np_nonzero stoich) = Inr c0_m"
    using mask_c0[OF len] len
    by (simp add: c0m zip_as_map_nth[OF len] filter_map comp_def np_nonzero_def)
  have coord: "solve_equilibrium_coord brentq c0 stoich K ap = Inr rc"
    using tk iv ret by (simp add: solve_equilibrium_coord_def stm)
  have a: "solve_equilibrium brentq c0 stoich K ap = Inr result"
    using coord len
    by (simp add: solve_equilibrium_def np_binop_def res zip_map2 case_prod_unfold)
  from spec ret have b: "num_val lower \<le> rc" "rc \<le> num_val upper"
    and root: "equilibrium_residual rc c0_m stoich_m K ap = Inr 0"
    unfolding bracketing_root_finder_def by blast+
  have c0m': "c0_m = map fst (filter (\<lambda>(c, s). s \<noteq> 0) (zip c0 stoich))"
    using tk mask_c0[OF len] by simp
  have stm': "stoich_m = filter (\<lambda>s. s \<noteq> 0) stoich"
    by (simp add: stm mask_stoich)
  have lm: "length c0_m = length stoich_m"
    by (simp add: c0m stm)
  let ?cm = "map2 (+) c0_m (map (\<lambda>s. of_int s * rc) stoich_m)"
  have q: "equilibrium_quotient ?cm stoich_m = equilibrium_quotient result stoich"
    unfolding equilibrium_quotient_def c0m' stm' res by (rule quotient_mask[OF len])
  have cm: "map (\<lambda>i. result ! i) (np_nonzero stoich) = ?cm"
    unfolding res c0m' stm' by (rule masked_result[OF len])
  have "equilibrium_residual rc c0_m stoich_m K ap
          = Inr (K - equilibrium_quotient result stoich
                      * (case ap of None \<Rightarrow> 1 | Some a \<Rightarrow> a ?cm))"
    using lm q by (simp add: equilibrium_residual_def np_binop_def Let_def split: option.splits)
  with root have "K - equilibrium_quotient result stoich
                      * (case ap of None \<Rightarrow> 1 | Some a \<Rightarrow> a ?cm) = 0"
    by simp
  then have d: "K = equilibrium_quotient result stoich
               * (case ap of None \<Rightarrow> 1
                  | Some a \<Rightarrow> a (map (\<lambda>i. result ! i) (np_nonzero stoich)))"
    unfolding cm by simp
  from a b root d show ?thesis by blast
qed

theorem solve_equilibrium_root_witness:
  "solve_equilibrium (candidate_root_finder 1) [2, 0, 5] [- 1, 1, 0] 1 None = Inr [1, 1, 5]
   \<and> equilibrium_quotient [1, 1, 5] [- 1, 1, 0] = 1"
proof -
  have nz: "np_nonzero [- 1, 1, 0] = [0, 1]"
    by (simp add: np_nonzero_def upt_rec)
  have len: "length [2, 0, 5 :: real] = length [- 1, 1, 0 :: int]" by simp
  have c0m: "[2, 0 :: real] = map (\<lambda>i. [2, 0, 5] ! i) (np_nonzero [- 1, 1, 0])"
    by (simp add: nz)
  have stm: "[- 1, 1 :: int] = map (\<lambda>i. [- 1, 1, 0] ! i) (np_nonzero [- 1, 1, 0])"
    by (simp add: nz)
  have iv: "get_rc_interval [- 1, 1] [2, 0] = Inr (PyInt 0, NpFloat 2)"
    by (simp add: get_rc_interval_def np_binop_def)
  have r1: "equilibrium_residual 1 [2, 0] [- 1, 1] 1 None = Inr 0"
    by (simp add: equilibrium_residual_def np_binop_def equilibrium_quotient_def)
  have ret: "candidate_root_finder 1 (\<lambda>rc. equilibrium_residual rc [2, 0] [- 1, 1] 1 None)
               (num_val (PyInt 0)) (num_val (NpFloat 2)) = Inr 1"
    by (simp add: candidate_root_finder_def r1)
  have res: "[1, 1, 5 :: real] = map2 (\<lambda>c s. c + 1 * of_int s) [2, 0, 5] [- 1, 1, 0]"
    by simp
  have fin: "finite_quotient [1, 1, 5] [- 1, 1, 0]"
    by (simp add: finite_quotient_def)
  from solve_equilibrium_root[OF len c0m stm iv candidate_root_finder_ok ret res fin]
  show ?thesis by simp
qed

text \<open>
  A non-degenerate bracket need not hold a root: for \<open>c0 = [1, 1]\<close>,
  \<open>stoich = [1, 1]\<close> and \<open>K = 4\<close> the bracket is \<open>[-1, 0]\<close>, on which the residual
  \<open>4 - (1 + rc)\<^sup>2\<close> stays at or above \<open>3\<close>; no root-finder can make
  \<^verbatim>\<open>solve_equilibrium\<close> return what Claim C4 promises there.
\<close>

theorem solve_equilibrium_root_counterexample:
  "get_rc_interval [1, 1] [1, 1] = Inr (NpFloat (- 1), PyInt 0)
   \<and> \<not> (\<exists>brentq rc.
          solve_equilibrium brentq [1, 1] [1, 1] 4 None
            = Inr (map2 (\<lambda>c s. c + rc * of_int s) [1, 1] [1, 1])
          \<and> - 1 \<le> rc \<and> rc \<le> 0
          \<and> equilibrium_residual rc [1, 1] [1, 1] 4 None = Inr 0)"
proof -
  have iv: "get_rc_interval [1, 1] [1, 1] = Inr (NpFloat (- 1), PyInt 0)"
    by (simp add: get_rc_interval_def np_binop_def)
  have no_root: "equilibrium_residual rc [1, 1] [1, 1] 4 None \<noteq> Inr 0"
    if "- 1 \<le> rc" "rc \<le> 0" for rc
  proof -
    have "(1 + rc) * (1 + rc) \<le> 1 * 1"
      using that by (intro mult_mono) simp_all
    then show ?thesis
      by (simp add: equilibrium_residual_def np_binop_def equilibrium_quotient_def)
  qed
  from iv no_root show ?thesis by blast
qed

subsection \<open>The dissolved projection\<close>

lemma exclusive_butlast:
  assumes "exclusive_precipitates (rs @ [r])"
  shows "exclusive_precipitates rs"
  unfolding exclusive_precipitates_def
proof (intro allI impI)
  fix i j assume i: "i < length rs" and j: "j < length rs"
    and h: "i \<noteq> j \<and> has_precipitates (rs ! i) \<and> has_precipitates (rs ! j)"
  have "(rs @ [r]) ! i = rs ! i" "(rs @ [r]) ! j = rs ! j"
    using i j by (simp_all add: nth_append)
  with assms i j h show "net_stoich (rs ! j) ! precip_idx (rs ! i) = 0"
    unfolding exclusive_precipitates_def
    by (metis length_append_singleton less_Suc_eq)
qed

lemma exclusive_last:
  assumes "exclusive_precipitates (rs @ [r])" and "r' \<in> set rs"
      and "has_precipitates r'" and "has_precipitates r"
  shows "net_stoich r ! precip_idx r' = 0"
proof -
  from assms(2) obtain i where i: "i < length rs" "rs ! i = r'"
    by (auto simp: in_set_conv_nth)
  have a: "(rs @ [r]) ! i = r'" using i by (simp add: nth_append)
  have b: "(rs @ [r]) ! length rs = r" by simp
  have "i < length (rs @ [r])" "length rs < length (rs @ [r])" "i \<noteq> length rs"
    using i by simp_all
  with assms(1) a b assms(3,4) show ?thesis
    unfolding exclusive_precipitates_def by metis
qed

lemma dissolve_step_wf:
  assumes "has_precipitates r" and "wf_precipitation (length cs) r"
  shows "dissolve_step r cs
     = Inr (map2 (\<lambda>c n. c - cs ! precip_idx r / of_int (precip_coeff r) * of_int n)
                 cs (net_stoich r))"
  using assms
  by (simp add: dissolve_step_def wf_precipitation_def precip_idx_def precip_coeff_def
        np_inplace_def zip_map2 case_prod_unfold split: prod.splits)

lemma dissolved_fold_inv:
  assumes "\<forall>r \<in> set rs. has_precipitates r \<longrightarrow> wf_precipitation (length concs) r"
      and "exclusive_precipitates rs"
  shows "\<exists>res. fold (\<lambda>r acc. case acc of Inl e \<Rightarrow> Inl e | Inr nc \<Rightarrow> dissolve_step r nc)
                  rs (Inr concs) = Inr res
          \<and> length res = length concs
          \<and> (\<forall>r \<in> set rs. has_precipitates r \<longrightarrow> res ! precip_idx r = 0)
          \<and> (\<forall>k < length concs.
                (\<forall>r \<in> set rs. has_precipitates r \<longrightarrow> net_stoich r ! k = 0)
                  \<longrightarrow> res ! k = concs ! k)"
  using assms
proof (induction rs rule: rev_induct)
  case Nil
  then show ?case by simp
next
  case (snoc r rs)
  have wf_rs: "\<forall>r \<in> set rs. has_precipitates r \<longrightarrow> wf_precipitation (length concs) r"
    using snoc.prems(1) by simp
  have ex_rs: "exclusive_precipitates rs"
    using snoc.prems(2) by (rule exclusive_butlast)
  from snoc.IH[OF wf_rs ex_rs] obtain res where
    f: "fold (\<lambda>r acc. case acc of Inl e \<Rightarrow> Inl e | Inr nc \<Rightarrow> dissolve_step r nc)
             rs (Inr concs) = Inr res"
    and len: "length res = length concs"
    and zero: "\<forall>r \<in> set rs. has_precipitates r \<longrightarrow> res ! precip_idx r = 0"
    and same: "\<forall>k < length concs.
                (\<forall>r \<in> set rs. has_precipitates r \<longrightarrow> net_stoich r ! k = 0)
                  \<longrightarrow> res ! k = concs ! k"
    by blast
  show ?case
  proof (cases "has_precipitates r")
    case False
    then have "dissolve_step r res = Inr res" by (simp add: dissolve_step_def)
    with f len zero same False show ?thesis by auto
  next
    case True
    then have wf: "wf_precipitation (length res) r"
      using snoc.prems(1) len by simp
    let ?res' = "map2 (\<lambda>c n. c - res ! precip_idx r / of_int (precip_coeff r) * of_int n)
                      res (net_stoich r)"
    have step: "dissolve_step r res = Inr ?res'"
      by (rule dissolve_step_wf[OF True wf])
    have ln: "length (net_stoich r) = length res" and ix: "precip_idx r < length res"
      and co: "precip_coeff r = net_stoich r ! precip_idx r" and nz: "precip_coeff r \<noteq> 0"
      using wf by (simp_all add: wf_precipitation_def)
    have nth: "?res' ! k = res ! k - res ! precip_idx r / of_int (precip_coeff r)
                                      * of_int (net_stoich r ! k)"
      if "k < length res" for k
      using that ln by simp
    have len': "length ?res' = length concs" using ln len by simp
    have own: "?res' ! precip_idx r = 0"
      using nth[OF ix] nz co by simp
    have others: "?res' ! precip_idx r' = 0" if "r' \<in> set rs" "has_precipitates r'" for r'
    proof -
      have "net_stoich r ! precip_idx r' = 0"
        using exclusive_last[OF snoc.prems(2) that(1) that(2) True] .
      moreover have "precip_idx r' < length res"
        using wf_rs that len by (simp add: wf_precipitation_def)
      ultimately show ?thesis using nth zero that by simp
    qed
    have same': "?res' ! k = concs ! k"
      if "k < length concs" "\<forall>r' \<in> set (rs @ [r]). has_precipitates r' \<longrightarrow> net_stoich r' ! k = 0"
      for k
    proof -
      have "net_stoich r ! k = 0" using that(2) True by simp
      moreover have "res ! k = concs ! k" using same that by simp
      ultimately show ?thesis using nth that(1) len by simp
    qed
    have "fold (\<lambda>r acc. case acc of Inl e \<Rightarrow> Inl e | Inr nc \<Rightarrow> dissolve_step r nc)
             (rs @ [r]) (Inr concs) = Inr ?res'"
      using f step by simp
    moreover have "\<forall>r' \<in> set (rs @ [r]). has_precipitates r' \<longrightarrow> ?res' ! precip_idx r' = 0"
      using own others by auto
    ultimately show ?thesis using len' same' by blast
  qed
qed

text \<open>
  Claim C10. When every precipitation reaction is well formed for the concentration vector
  and no precipitating species occurs in another precipitation reaction,
  \<^verbatim>\<open>EqSystem.dissolved\<close> returns a vector that is zero at the precipitating species of
  every precipitation reaction and unchanged at every species whose net coefficient is
  zero in all precipitation reactions.
\<close>

theorem dissolved_empties_precipitates:
  assumes "\<forall>r \<in> set (rxns sys). has_precipitates r \<longrightarrow> wf_precipitation (length concs) r"
      and "exclusive_precipitates (rxns sys)"
  shows "\<exists>res. dissolved sys concs = Inr res
          \<and> length res = length concs
          \<and> (\<forall>r \<in> set (rxns sys). has_precipitates r \<longrightarrow> res ! precip_idx r = 0)
          \<and> (\<forall>k < length concs.
                (\<forall>r \<in> set (rxns sys). has_precipitates r \<longrightarrow> net_stoich r ! k = 0)
                  \<longrightarrow> res ! k = concs ! k)"
  unfolding dissolved_def by (rule dissolved_fold_inv[OF assms])

theorem dissolved_empties_precipitates_witness:
  "\<exists>res. dissolved example_system [1, 2, 3, 4] = Inr res
     \<and> res ! 3 = 0 \<and> res ! 0 = 1 \<and> res ! 1 = 2"
proof -
  have wf: "\<forall>r \<in> set (rxns example_system).
              has_precipitates r \<longrightarrow> wf_precipitation (length [1, 2, 3, 4 :: real]) r"
    by (simp add: example_system_def example_rxns_def wf_precipitation_def
          precip_idx_def precip_coeff_def)
  have ex: "exclusive_precipitates (rxns example_system)"
    by (auto simp: example_system_def example_rxns_def exclusive_precipitates_def less_Suc_eq
          numeral_2_eq_2)
  from dissolved_empties_precipitates[OF wf ex] obtain res where
    d: "dissolved example_system [1, 2, 3, 4] = Inr res"
    and z: "\<forall>r \<in> set (rxns example_system). has_precipitates r \<longrightarrow> res ! precip_idx r = 0"
    and s: "\<forall>k < length [1, 2, 3, 4 :: real].
              (\<forall>r \<in> set (rxns example_system). has_precipitates r \<longrightarrow> net_stoich r ! k = 0)
                \<longrightarrow> res ! k = [1, 2, 3, 4] ! k"
    by blast
  from z have "res ! 3 = 0"
    by (simp add: example_system_def example_rxns_def precip_idx_def)
  moreover from spec[OF s, of 0] have "res ! 0 = 1"
    by (auto simp: example_system_def example_rxns_def)
  moreover from spec[OF s, of 1] have "res ! 1 = 2"
    by (auto simp: example_system_def example_rxns_def)
  ultimately show ?thesis using d by blast
qed

subsection \<open>The phase conditions\<close>

lemma fw_cond_eval:
  assumes "ri < length (rxns sys)" and "dissolved sys x = Inr d"
  shows "fw_cond sys ri rtol x p =
           (if precip_coeff (rxns sys ! ri) > 0
            then Inr (rxn_Q (rxns sys ! ri) d * (1 + rtol) < rxn_K (rxns sys ! ri))
            else if precip_coeff (rxns sys ! ri) < 0
            then Inr (rxn_Q (rxns sys ! ri) d > rxn_K (rxns sys ! ri) * (1 + rtol))
            else Inl NotImplementedError)"
  using assms
  by (simp add: fw_cond_def fw_cond_factory_def precip_coeff_def Let_def split: prod.splits)

lemma bw_cond_eval:
  assumes "ri < length (rxns sys)" and "precip_idx (rxns sys ! ri) < length x"
  shows "bw_cond sys ri small x p = Inr (small \<le> x ! precip_idx (rxns sys ! ri))"
  using assms
  by (auto simp: bw_cond_def bw_cond_factory_def precip_idx_def Let_def split: prod.splits)

lemma example_dissolved:
  "dissolved example_system [a, b, c, d] = Inr [a, b, c + d, 0]"
  by (simp add: dissolved_def example_system_def example_rxns_def dissolve_step_def
        np_inplace_def)

text \<open>
  Claim C7. For a reaction whose precipitating species has coefficient \<open>s\<close> and an entry
  in the state, in a system whose precipitate coefficients are nonzero, with \<open>q\<close> the
  reaction quotient on the dissolved projection of the state and \<open>k\<close> the equilibrium
  constant: the forward condition returns true iff \<open>s > 0\<close> and \<open>q\<cdot>(1 + rtol) < k\<close>, or
  \<open>s < 0\<close> and \<open>q > k\<cdot>(1 + rtol)\<close> (it returns a truth value whenever \<open>s \<noteq> 0\<close> and raises
  \<^verbatim>\<open>NotImplementedError\<close> when \<open>s = 0\<close>); the backward condition returns true iff the
  concentration of the precipitating species is at or above \<open>small\<close>, false otherwise; the
  default of \<open>rtol\<close> is \<open>10\<^sup>-\<^sup>1\<^sup>4\<close>.
\<close>

theorem phase_conditions:
  assumes "ri < length (rxns sys)" and "dissolved sys x = Inr d"
      and "precip_idx (rxns sys ! ri) < length x"
      and "s = precip_coeff (rxns sys ! ri)"
      and "q = rxn_Q (rxns sys ! ri) d" and "k = rxn_K (rxns sys ! ri)"
      and "nonzero_precipitate_coeffs sys"
  shows "(fw_cond sys ri rtol x p = Inr True
            \<longleftrightarrow> (s > 0 \<and> q * (1 + rtol) < k) \<or> (s < 0 \<and> q > k * (1 + rtol)))
       \<and> (s \<noteq> 0 \<longrightarrow> (\<exists>v. fw_cond sys ri rtol x p = Inr v))
       \<and> (s = 0 \<longrightarrow> fw_cond sys ri rtol x p = Inl NotImplementedError)
       \<and> bw_cond sys ri small x p = Inr (small \<le> x ! precip_idx (rxns sys ! ri))
       \<and> default_rtol = 1 / 10 ^ 14"
  using fw_cond_eval[OF assms(1,2), of rtol p] bw_cond_eval[OF assms(1,3), of small p]
    assms(4-6)
  by (auto simp: default_rtol_def)

theorem phase_conditions_witness:
  "fw_cond example_system 1 default_rtol [1, 2, 3, 4] [] = Inr False
   \<and> bw_cond example_system 1 0 [1, 2, 3, 4] [] = Inr True
   \<and> fw_cond example_system 1 default_rtol [1, 2, 200, 0] [] = Inr True
   \<and> bw_cond example_system 1 (1 / 2) [1, 2, 200, 0] [] = Inr False"
proof -
  have r: "(1::nat) < length (rxns example_system)"
    by (simp add: example_system_def example_rxns_def)
  have i: "precip_idx (rxns example_system ! 1) < length [a, b, c, d :: real]" for a b c d
    by (simp add: example_system_def example_rxns_def precip_idx_def)
  have s: "1 = precip_coeff (rxns example_system ! 1)"
    by (simp add: example_system_def example_rxns_def precip_coeff_def)
  have k: "1 / 100 = rxn_K (rxns example_system ! 1)"
    by (simp add: example_system_def example_rxns_def)
  have q1: "1 / 7 = rxn_Q (rxns example_system ! 1) [1, 2, 3 + 4, 0]"
    by (simp add: example_system_def example_rxns_def equilibrium_quotient_def
          power_int_minus)
  have q2: "1 / 200 = rxn_Q (rxns example_system ! 1) [1, 2, 200 + 0, 0]"
    by (simp add: example_system_def example_rxns_def equilibrium_quotient_def
          power_int_minus)
  have x3: "[1, 2, 3, 4 :: real] ! precip_idx (rxns example_system ! 1) = 4"
    by (simp add: example_system_def example_rxns_def precip_idx_def)
  have x0: "[1, 2, 200, 0 :: real] ! precip_idx (rxns example_system ! 1) = 0"
    by (simp add: example_system_def example_rxns_def precip_idx_def)
  have nz: "nonzero_precipitate_coeffs example_system"
    by (simp add: nonzero_precipitate_coeffs_def example_system_def example_rxns_def
          precip_coeff_def)
  from phase_conditions[OF r example_dissolved i s q1 k nz, of default_rtol "[]" 0] x3
  have a: "fw_cond example_system 1 default_rtol [1, 2, 3, 4] [] = Inr False
           \<and> bw_cond example_system 1 0 [1, 2, 3, 4] [] = Inr True"
    by (auto simp: default_rtol_def)
  from phase_conditions[OF r example_dissolved i s q2 k nz, of default_rtol "[]" "1 / 2"] x0
  have b: "fw_cond example_system 1 default_rtol [1, 2, 200, 0] [] = Inr True
           \<and> bw_cond example_system 1 (1 / 2) [1, 2, 200, 0] [] = Inr False"
    by (auto simp: default_rtol_def)
  from a b show ?thesis by blast
qed

text \<open>
  Claim C2, as amended. On one state the forward and the backward condition are both true
  exactly when the quotient test of the forward condition succeeds and the concentration
  of the precipitating species is at or above \<open>small\<close>; they are never both true on a state
  whose precipitate concentration is below \<open>small\<close>.
\<close>

theorem conditions_both_true:
  assumes "ri < length (rxns sys)" and "dissolved sys x = Inr d"
      and "precip_idx (rxns sys ! ri) < length x"
      and "s = precip_coeff (rxns sys ! ri)"
      and "q = rxn_Q (rxns sys ! ri) d" and "k = rxn_K (rxns sys ! ri)"
      and "nonzero_precipitate_coeffs sys"
  shows "((fw_cond sys ri rtol x p = Inr True \<and> bw_cond sys ri small x p = Inr True)
            \<longleftrightarrow> ((s > 0 \<and> q * (1 + rtol) < k) \<or> (s < 0 \<and> q > k * (1 + rtol)))
                 \<and> small \<le> x ! precip_idx (rxns sys ! ri))
       \<and> (x ! precip_idx (rxns sys ! ri) < small
            \<longrightarrow> \<not> (fw_cond sys ri rtol x p = Inr True \<and> bw_cond sys ri small x p = Inr True))"
  using fw_cond_eval[OF assms(1,2), of rtol p] bw_cond_eval[OF assms(1,3), of small p]
    assms(4-6)
  by auto

theorem conditions_both_true_witness:
  "\<not> (fw_cond example_system 1 default_rtol [1, 2, 200, 0] [] = Inr True
       \<and> bw_cond example_system 1 (1 / 2) [1, 2, 200, 0] [] = Inr True)"
proof -
  have r: "(1::nat) < length (rxns example_system)"
    by (simp add: example_system_def example_rxns_def)
  have i: "precip_idx (rxns example_system ! 1) < length [1, 2, 200, 0 :: real]"
    by (simp add: example_system_def example_rxns_def precip_idx_def)
  have s: "1 = precip_coeff (rxns example_system ! 1)"
    by (simp add: example_system_def example_rxns_def precip_coeff_def)
  have k: "1 / 100 = rxn_K (rxns example_system ! 1)"
    by (simp add: example_system_def example_rxns_def)
  have q: "1 / 200 = rxn_Q (rxns example_system ! 1) [1, 2, 200 + 0, 0]"
    by (simp add: example_system_def example_rxns_def equilibrium_quotient_def
          power_int_minus)
  have x0: "[1, 2, 200, 0 :: real] ! precip_idx (rxns example_system ! 1) = 0"
    by (simp add: example_system_def example_rxns_def precip_idx_def)
  have nz: "nonzero_precipitate_coeffs example_system"
    by (simp add: nonzero_precipitate_coeffs_def example_system_def example_rxns_def
          precip_coeff_def)
  from conditions_both_true[OF r example_dissolved i s q k nz, of default_rtol "[]" "1 / 2"] x0
  show ?thesis by simp
qed

text \<open>
  Both conditions are true on the state \<open>[1, 2, 200, 4]\<close> of the example system: the
  dissolved projection \<open>[1, 2, 204, 0]\<close> has quotient \<open>1/204\<close>, below \<open>K = 1/100\<close>, and
  the solid has concentration \<open>4\<close>.
\<close>

theorem conditions_both_true_counterexample:
  "fw_cond example_system 1 default_rtol [1, 2, 200, 4] [1, 2, 200, 4, 1 / 10 ^ 5, 1 / 10 ^ 2]
     = Inr True
   \<and> bw_cond example_system 1 0 [1, 2, 200, 4] [1, 2, 200, 4, 1 / 10 ^ 5, 1 / 10 ^ 2]
     = Inr True"
proof -
  have r: "(1::nat) < length (rxns example_system)"
    by (simp add: example_system_def example_rxns_def)
  have i: "precip_idx (rxns example_system ! 1) < length [1, 2, 200, 4 :: real]"
    by (simp add: example_system_def example_rxns_def precip_idx_def)
  have f: "fw_cond example_system 1 default_rtol [1, 2, 200, 4]
             [1, 2, 200, 4, 1 / 10 ^ 5, 1 / 10 ^ 2] = Inr True"
    unfolding fw_cond_eval[OF r example_dissolved]
    by (simp add: example_system_def example_rxns_def precip_coeff_def
          equilibrium_quotient_def power_int_minus default_rtol_def)
  have b: "bw_cond example_system 1 0 [1, 2, 200, 4]
             [1, 2, 200, 4, 1 / 10 ^ 5, 1 / 10 ^ 2] = Inr True"
    unfolding bw_cond_eval[OF r i]
    by (simp add: example_system_def example_rxns_def precip_idx_def)
  from f b show ?thesis by blast
qed

subsection \<open>The sanity check\<close>

lemma list_ex_nth: "list_ex P xs \<longleftrightarrow> (\<exists>i < length xs. P (xs ! i))"
  by (rule list_ex_length)

lemma result_is_sane_eval:
  assumes "upper_conc_bounds sys init_concs = Inr bounds" and "length x = length bounds"
  shows "result_is_sane sys init_concs x
           = Inr (\<not> (negative_conc x \<or> exceeds_bound bounds x),
                  (if negative_conc x then [''Negative concentration''] else [])
                  @ (if exceeds_bound bounds x
                     then [''Too much of at least one component''] else []))"
proof -
  have cmp: "np_binop (\<lambda>xi b. xi > b) x (map (\<lambda>b. b * (1 + 1 / 10 ^ 12)) bounds)
               = Inr (map2 (\<lambda>xi b. xi > b) x (map (\<lambda>b. b * (1 + 1 / 10 ^ 12)) bounds))"
    using assms(2) by (simp add: np_binop_def)
  have too: "list_ex (\<lambda>b. b) (map2 (\<lambda>xi b. xi > b) x (map (\<lambda>b. b * (1 + 1 / 10 ^ 12)) bounds))
               \<longleftrightarrow> exceeds_bound bounds x"
  proof -
    have "map2 (\<lambda>xi b. xi > b) x (map (\<lambda>b. b * (1 + 1 / 10 ^ 12)) bounds) ! i
            \<longleftrightarrow> x ! i > bounds ! i * (1 + 1 / 10 ^ 12)" if "i < length x" for i
      using that assms(2) by simp
    then show ?thesis
      using assms(2) by (auto simp: list_ex_nth exceeds_bound_def simp del: nth_map nth_zip)
  qed
  have neg: "list_ex (\<lambda>xi. xi < 0) x \<longleftrightarrow> negative_conc x"
    by (simp add: list_ex_nth negative_conc_def)
  have "result_is_sane sys init_concs x
          = (if negative_conc x \<or> exceeds_bound bounds x
             then Inr (False,
                       (if negative_conc x then [''Negative concentration''] else [])
                       @ (if exceeds_bound bounds x
                          then [''Too much of at least one component''] else []))
             else Inr (True, []))"
    by (simp only: result_is_sane_def assms(1) sum.case cmp Let_def too neg)
  then show ?thesis by simp
qed

lemma example_bounds: "upper_conc_bounds example_system [1, 1, 0, 0] = Inr [1, 1, 1, 1]"
  by (simp add: upper_conc_bounds_def example_system_def example_substances_def
        composition_conc_def add_composition_def choose_from_def)

text \<open>
  Claim C9. When the upper bounds exist (the weights of the compositions being nonzero)
  and the candidate has one entry per bound,
  \<^verbatim>\<open>_result_is_sane\<close> returns False iff some entry is negative or some entry exceeds
  its bound times \<open>1 + 10\<^sup>-\<^sup>1\<^sup>2\<close>, and True otherwise; each violation emits its own
  warning, the two texts differ and either fires whatever the other does; and
  \<^verbatim>\<open>_solve\<close> hands the solver's vector back unchanged together with that verdict, so a
  vector with a negative entry is returned flagged as not sane.
\<close>

theorem sanity_check:
  assumes "upper_conc_bounds sys init_concs = Inr bounds" and "length x = length bounds"
      and "nonzero_weights sys"
  shows "(\<exists>w. result_is_sane sys init_concs x = Inr (False, w))
           = (negative_conc x \<or> exceeds_bound bounds x)
       \<and> (\<exists>w. result_is_sane sys init_concs x = Inr (True, w))
           = (\<not> (negative_conc x \<or> exceeds_bound bounds x))
       \<and> (\<exists>sane. result_is_sane sys init_concs x
             = Inr (sane, (if negative_conc x then [''Negative concentration''] else [])
                          @ (if exceeds_bound bounds x
                             then [''Too much of at least one component''] else [])))
       \<and> ''Negative concentration'' \<noteq> ''Too much of at least one component''
       \<and> (neqsys_solve (case x0 of None \<Rightarrow> init_concs | Some v \<Rightarrow> v)
                        (init_concs @ eq_constants sys [] None 0) = Inr (x, sol)
            \<longrightarrow> (\<exists>w. private_solve sys neqsys_solve init_concs x0
                       = Inr ((x, sol, \<not> (negative_conc x \<or> exceeds_bound bounds x)), w)))"
proof -
  note ev = result_is_sane_eval[OF assms(1,2)]
  have a: "(\<exists>w. result_is_sane sys init_concs x = Inr (False, w))
           = (negative_conc x \<or> exceeds_bound bounds x)"
    unfolding ev by auto
  have b: "(\<exists>w. result_is_sane sys init_concs x = Inr (True, w))
           = (\<not> (negative_conc x \<or> exceeds_bound bounds x))"
    unfolding ev by auto
  have c: "\<exists>sane. result_is_sane sys init_concs x
             = Inr (sane, (if negative_conc x then [''Negative concentration''] else [])
                          @ (if exceeds_bound bounds x
                             then [''Too much of at least one component''] else []))"
    unfolding ev by blast
  have d: "''Negative concentration'' \<noteq> ''Too much of at least one component''"
    by simp
  have e: "neqsys_solve (case x0 of None \<Rightarrow> init_concs | Some v \<Rightarrow> v)
                        (init_concs @ eq_constants sys [] None 0) = Inr (x, sol)
            \<longrightarrow> (\<exists>w. private_solve sys neqsys_solve init_concs x0
                       = Inr ((x, sol, \<not> (negative_conc x \<or> exceeds_bound bounds x)), w))"
    by (simp add: private_solve_def Let_def ev)
  from a b c d e show ?thesis by blast
qed

theorem sanity_check_witness:
  "result_is_sane example_system [1, 1, 0, 0] [- 1, 3, 0, 0]
     = Inr (False, [''Negative concentration'', ''Too much of at least one component''])
   \<and> (\<exists>w. private_solve example_system
             (\<lambda>x0 params. Inr ([- 1, 3, 0, 0], \<lparr>success = True\<rparr>)) [1, 1, 0, 0] None
           = Inr (([- 1, 3, 0, 0], \<lparr>success = True\<rparr>, False), w))"
proof -
  have l: "length [- 1, 3, 0, 0 :: real] = length [1, 1, 1, 1 :: real]" by simp
  have n: "negative_conc [- 1, 3, 0, 0]"
    unfolding negative_conc_def by (rule exI[of _ 0]) simp
  have t: "exceeds_bound [1, 1, 1, 1] [- 1, 3, 0, 0]"
    unfolding exceeds_bound_def by (rule exI[of _ 1]) simp
  have nw: "nonzero_weights example_system"
    by (simp add: nonzero_weights_def example_system_def example_substances_def)
  from sanity_check[OF example_bounds l nw,
      of "\<lambda>x0 params. Inr ([- 1, 3, 0, 0], \<lparr>success = True\<rparr>)" None "\<lparr>success = True\<rparr>"] n t
  show ?thesis by auto
qed


lemma collect_map_Inr:
  "collect (map f xs) = Inr ys \<Longrightarrow>
     length ys = length xs \<and> (\<forall>i < length xs. f (xs ! i) = Inr (ys ! i))"
proof (induction xs arbitrary: ys)
  case Nil
  then show ?case by simp
next
  case (Cons a xs)
  from Cons.prems obtain v vs where v: "f a = Inr v" and vs: "collect (map f xs) = Inr vs"
    and ys: "ys = v # vs"
    by (cases "f a"; cases "collect (map f xs)") auto
  from Cons.IH[OF vs] have "length vs = length xs" "\<forall>i < length xs. f (xs ! i) = Inr (vs ! i)"
    by simp_all
  then show ?case using v ys by (auto simp: nth_Cons split: nat.splits)
qed

lemma py_min_le: "py_min l = Inr m \<Longrightarrow> v \<in> set l \<Longrightarrow> m \<le> v"
proof (cases l)
  case Nil
  then show "py_min l = Inr m \<Longrightarrow> v \<in> set l \<Longrightarrow> m \<le> v" by simp
next
  case (Cons a as)
  assume "py_min l = Inr m" and v: "v \<in> set l"
  then have "m = Min (set l)" using Cons by (simp add: Min.set_eq_fold[symmetric])
  then show "m \<le> v" using v by simp
qed

lemma upper_bound_component:
  assumes ub: "upper_conc_bounds sys init_concs = Inr bounds"
      and i: "i < ns sys"
      and comp: "(c, wt) \<in> set (composition (substances sys ! i))" "c \<noteq> 0"
  shows "length bounds = ns sys"
    and "bounds ! i \<le> composition_conc (substances sys) init_concs c / wt"
proof -
  let ?cc = "composition_conc (substances sys) init_concs"
  from ub have col: "collect (map (\<lambda>s_obj. py_min (choose_from ?cc s_obj)) (substances sys))
                       = Inr bounds"
    by (simp add: upper_conc_bounds_def Let_def)
  from collect_map_Inr[OF col] have len: "length bounds = length (substances sys)"
    and each: "\<forall>i < length (substances sys).
                 py_min (choose_from ?cc (substances sys ! i)) = Inr (bounds ! i)"
    by simp_all
  show "length bounds = ns sys" using len by (simp add: ns_def)
  have "?cc c / wt \<in> set (choose_from ?cc (substances sys ! i))"
    using comp by (force simp: choose_from_def)
  moreover have "py_min (choose_from ?cc (substances sys ! i)) = Inr (bounds ! i)"
    using each i by (simp add: ns_def)
  ultimately show "bounds ! i \<le> ?cc c / wt" by (rule py_min_le[rotated])
qed

text \<open>
  Claim C3, as amended. What acceptance guarantees, the weights of the compositions being
  nonzero: every entry of an accepted vector (one entry per substance) is nonnegative, and for every conserved quantity other than the
  charge that a substance holds with positive weight, the weight times the substance's
  concentration is at most the total of that quantity in the initial concentrations, times
  \<open>1 + 10\<^sup>-\<^sup>1\<^sup>2\<close>. The balances themselves are not compared.
\<close>

theorem accepted_result_bounds:
  assumes san: "result_is_sane sys init_concs x = Inr (True, w)"
      and len: "length x = ns sys"
      and i: "i < ns sys"
      and comp: "(c, wt) \<in> set (composition (substances sys ! i))" "c \<noteq> 0" "0 < wt"
      and nw: "nonzero_weights sys"
  shows "0 \<le> x ! i
       \<and> wt * x ! i \<le> composition_conc (substances sys) init_concs c * (1 + 1 / 10 ^ 12)"
proof -
  from san obtain bounds where ub: "upper_conc_bounds sys init_concs = Inr bounds"
    by (cases "upper_conc_bounds sys init_concs") (simp_all add: result_is_sane_def)
  note b = upper_bound_component[OF ub i comp(1,2)]
  have lx: "length x = length bounds" using len b(1) by simp
  from san result_is_sane_eval[OF ub lx]
  have ok: "\<not> negative_conc x" "\<not> exceeds_bound bounds x" by simp_all
  have ix: "i < length x" using i len by simp
  from ok(1) ix have nonneg: "0 \<le> x ! i"
    unfolding negative_conc_def by (meson not_less)
  from ok(2) ix have "x ! i \<le> bounds ! i * (1 + 1 / 10 ^ 12)"
    unfolding exceeds_bound_def by (meson not_less)
  also have "\<dots> \<le> composition_conc (substances sys) init_concs c / wt * (1 + 1 / 10 ^ 12)"
    using b(2) by (intro mult_right_mono) simp_all
  finally have "x ! i * wt
      \<le> composition_conc (substances sys) init_concs c / wt * (1 + 1 / 10 ^ 12) * wt"
    using comp(3) by (intro mult_right_mono) simp_all
  then have "wt * x ! i \<le> composition_conc (substances sys) init_concs c * (1 + 1 / 10 ^ 12)"
    using comp(3) by (simp add: mult.commute)
  with nonneg show ?thesis by blast
qed

lemma example_sane:
  "result_is_sane example_system [1, 1, 0, 0] [1 / 2, 1 / 2, 0, 0] = Inr (True, [])"
  by (simp add: result_is_sane_def example_bounds np_binop_def)

theorem accepted_result_bounds_witness:
  "(0::real) \<le> [1 / 2, 1 / 2, 0, 0] ! 2
   \<and> 1 * [1 / 2, 1 / 2, 0, 0] ! 2
       \<le> composition_conc (substances example_system) [1, 1, 0, 0] 2 * (1 + 1 / 10 ^ 12)"
proof -
  have l: "length [1 / 2, 1 / 2, 0, 0 :: real] = ns example_system"
    by (simp add: ns_def example_system_def example_substances_def)
  have i: "2 < ns example_system"
    by (simp add: ns_def example_system_def example_substances_def)
  have c: "(2, 1) \<in> set (composition (substances example_system ! 2))"
    by (simp add: example_system_def example_substances_def)
  have nz: "(2::int) \<noteq> 0" by simp
  have p: "(0::real) < 1" by simp
  have nw: "nonzero_weights example_system"
    by (simp add: nonzero_weights_def example_system_def example_substances_def)
  from accepted_result_bounds[OF example_sane l i c nz p nw] show ?thesis .
qed

text \<open>
  In the example system started from \<open>[1, 1, 0, 0]\<close> the vector \<open>[1/2, 1/2, 0, 0]\<close> is
  accepted, although both conserved totals are \<open>1/2\<close> instead of \<open>1\<close>.
\<close>

theorem accepted_result_bounds_counterexample:
  "result_is_sane example_system [1, 1, 0, 0] [1 / 2, 1 / 2, 0, 0] = Inr (True, [])
   \<and> composition_conservation example_system [1 / 2, 1 / 2, 0, 0] [1, 1, 0, 0]
       = Inr ([1, 2], [1 / 2, 1 / 2], [1, 1])
   \<and> \<not> within_rtol (1 / 10 ^ 10) (1 / 2) 1"
proof -
  have c: "composition_conservation example_system [1 / 2, 1 / 2, 0, 0] [1, 1, 0, 0]
       = Inr ([1, 2], [1 / 2, 1 / 2], [1, 1])"
    by (simp add: composition_conservation_def example_system_def np_dot_def vec_dot_vec_def)
  have r: "\<not> within_rtol (1 / 10 ^ 10) (1 / 2) 1"
    by (simp add: within_rtol_def)
  from example_sane c r show ?thesis by blast
qed

subsection \<open>The residuals of the Log strategy\<close>

lemma map2_same_map: "map2 f xs (map g xs) = map (\<lambda>x. f x (g x)) xs"
  by (induction xs) simp_all

text \<open>
  Claim C1, as amended. Without row reduction of the conservation rows, the residual
  vector of the Log strategy consists of the equilibrium rows \<open>A\<cdot>y - log K\<close>, one for each
  row of the matrix and (positive) constant that \<^verbatim>\<open>_get_A_ks\<close> returns, followed by the
  conservation rows \<open>B\<cdot>exp y - B\<cdot>init_concs\<close>, where \<open>init_concs\<close> are the first \<open>ns\<close>
  parameters.
\<close>

theorem log_residuals:
  assumes "\<not> rref_preserv self"
      and "get_A_ks self NumSysLog_small linear_rref (drop (ns (eqsys self)) params) = (A, ks)"
      and "composition_balance_vectors (eqsys self) = (B, comp_nrs)"
      and "init_concs = take (ns (eqsys self)) params"
      and "\<forall>k \<in> set ks. 0 < k"
  shows "NumSysLog_f self linear_rref yvec params
           = map2 (\<lambda>row k. vec_dot_vec row yvec - ln k) A ks
             @ map (\<lambda>row. vec_dot_vec row (map exp yvec) - vec_dot_vec row init_concs) B"
proof -
  have eq: "mat_dot_vec A yvec (Some (map (\<lambda>k. - ln k) ks))
              = map2 (\<lambda>row k. vec_dot_vec row yvec - ln k) A ks"
    by (simp add: mat_dot_vec_def zip_map2 case_prod_unfold)
  have pr: "linear_exprs linear_rref B (map exp yvec) (mat_dot_vec B init_concs None) False
              = map (\<lambda>row. vec_dot_vec row (map exp yvec) - vec_dot_vec row init_concs) B"
    by (simp add: linear_exprs_def mat_dot_vec_def map2_same_map)
  show ?thesis
    using assms(1-4) eq pr by (simp add: NumSysLog_f_def inits_and_eq_params_def Let_def)
qed

lemma isomer_A_ks:
  "get_A_ks isomer_numsys NumSysLog_small lr (drop (ns (eqsys isomer_numsys)) [1, 1, exp 1])
     = ([[- 1, 1]], [exp 1])"
  by (simp add: get_A_ks_def isomer_numsys_def isomer_system_def ns_def non_precip_rids_def
        phase_transfer_reaction_idxs_def eq_constants_def stoichs_constants_def enumerate_eq_zip)

theorem log_residuals_witness:
  "NumSysLog_f isomer_numsys (\<lambda>A b. (A, b)) [0, 0] [1, 1, exp 1] = [- 1, 0]"
proof -
  have a: "\<not> rref_preserv isomer_numsys" by (simp add: isomer_numsys_def)
  have b: "composition_balance_vectors (eqsys isomer_numsys) = ([[1, 1]], [1])"
    by (simp add: isomer_numsys_def isomer_system_def)
  have c: "[1, 1 :: real] = take (ns (eqsys isomer_numsys)) [1, 1, exp 1]"
    by (simp add: isomer_numsys_def isomer_system_def ns_def)
  have d: "\<forall>k \<in> set [exp 1 :: real]. 0 < k" by simp
  from log_residuals[OF a isomer_A_ks b c d, of "\<lambda>A b. (A, b)" "[0, 0]"]
  show ?thesis by (simp add: vec_dot_vec_def)
qed

text \<open>
  For \<open>A \<rightleftharpoons> B\<close> with \<open>K = e\<close> at \<open>y = [0, 0]\<close> the equilibrium row of the code is
  \<open>-1\<close>, that of the specification's wording \<open>+1\<close>.
\<close>

theorem log_residuals_counterexample:
  "NumSysLog_f isomer_numsys (\<lambda>A b. (A, b)) [0, 0] [1, 1, exp 1] = [- 1, 0]
   \<and> spec_log_residuals [[- 1, 1]] [exp 1] [[1, 1]] [1, 1] [0, 0] = [1, 0]
   \<and> NumSysLog_f isomer_numsys (\<lambda>A b. (A, b)) [0, 0] [1, 1, exp 1]
       \<noteq> spec_log_residuals [[- 1, 1]] [exp 1] [[1, 1]] [1, 1] [0, 0]"
proof -
  have f: "NumSysLog_f isomer_numsys (\<lambda>A b. (A, b)) [0, 0] [1, 1, exp 1] = [- 1, 0]"
    by (simp add: NumSysLog_f_def inits_and_eq_params_def isomer_A_ks Let_def
          mat_dot_vec_def linear_exprs_def vec_dot_vec_def)
       (simp add: isomer_numsys_def isomer_system_def ns_def vec_dot_vec_def)
  have s: "spec_log_residuals [[- 1, 1]] [exp 1] [[1, 1]] [1, 1] [0, 0] = [1, 0]"
    by (simp add: spec_log_residuals_def vec_dot_vec_def)
  from f s show ?thesis by simp
qed


subsection \<open>Pre- and post-processing\<close>

lemma tanh_artanh_real:
  assumes "- 1 < z" and "z < 1"
  shows "tanh (artanh z) = (z :: real)"
proof -
  have pos: "0 < (1 + z) / (1 - z)" using assms by simp
  have "exp (- 2 * artanh z) = inverse (exp (ln ((1 + z) / (1 - z))))"
    by (simp add: artanh_def exp_minus)
  also have "\<dots> = (1 - z) / (1 + z)"
    using pos by simp
  finally have e: "exp (- 2 * artanh z) = (1 - z) / (1 + z)" .
  have "tanh (artanh z) = (1 - (1 - z) / (1 + z)) / (1 + (1 - z) / (1 + z))"
    unfolding tanh_real_altdef e ..
  also have "\<dots> = z"
    using assms by (simp add: field_simps)
  finally show ?thesis .
qed

lemma square_round_trip:
  assumes "\<forall>v \<in> set x. 0 \<le> v"
  shows "case_prod NumSysSquare_post_processor (NumSysSquare_pre_processor x params) = (x, params)"
proof -
  have "map ((\<lambda>v. v ^ 2) \<circ> (\<lambda>v. sqrt \<bar>v\<bar>)) x = x"
    using assms by (intro map_idI) simp
  then show ?thesis
    by (simp add: NumSysSquare_post_processor_def NumSysSquare_pre_processor_def)
qed

lemma log_round_trip:
  assumes "\<forall>v \<in> set x. - NumSysLog_small < v"
  shows "case_prod NumSysLog_post_processor (NumSysLog_pre_processor x params)
           = (map (\<lambda>v. v + NumSysLog_small) x, params)"
proof -
  have "exp (ln (v + NumSysLog_small)) = v + NumSysLog_small" if "v \<in> set x" for v
  proof -
    have "- NumSysLog_small < v" using assms that by blast
    then have "0 < v + NumSysLog_small" by linarith
    then show ?thesis by simp
  qed
  then have "map (exp \<circ> (\<lambda>v. ln (v + NumSysLog_small))) x = map (\<lambda>v. v + NumSysLog_small) x"
    by (intro map_cong refl) simp
  then show ?thesis
    by (simp add: NumSysLog_post_processor_def NumSysLog_pre_processor_def)
qed

lemma linrel_round_trip:
  assumes ub: "upper_conc_bounds (eqsys self) (take (ns (eqsys self)) params) = Inr ymax"
      and len: "length x = length ymax"
      and nz: "\<forall>m \<in> set ymax. m \<noteq> 0"
  shows "round_trip (NumSysLinRel_pre_processor self) (NumSysLinRel_post_processor self) x params
           = Inr (x, params)"
proof -
  have "map2 (*) (map2 (/) x ymax) ymax = x"
    using len nz by (induction x ymax rule: list_induct2) simp_all
  then show ?thesis
    using ub len
    by (simp add: round_trip_def NumSysLinRel_pre_processor_def
          NumSysLinRel_post_processor_def max_concs_def np_binop_def Let_def)
qed

lemma tanh_component:
  assumes "0 < ym" and "- ym / 8 < xi" and "xi < 9 * ym / 8"
  shows "ym * (4 + 5 * tanh (artanh ((8 * xi / ym - 4) / 5))) / 8 = (xi :: real)"
proof -
  have a: "- 1 < (8 * xi / ym - 4) / 5" using assms by (simp add: field_simps)
  have b: "(8 * xi / ym - 4) / 5 < 1" using assms by (simp add: field_simps)
  show ?thesis
    unfolding tanh_artanh_real[OF a b] using assms(1) by (simp add: field_simps)
qed

lemma lintanh_round_trip:
  assumes ub: "upper_conc_bounds (eqsys self) (take (ns (eqsys self)) params) = Inr ymax"
      and len: "length x = length ymax"
      and rng: "\<forall>i < length x. 0 < ymax ! i \<and> - (ymax ! i) / 8 < x ! i \<and> x ! i < 9 * ymax ! i / 8"
  shows "round_trip (NumSysLinTanh_pre_processor self) (NumSysLinTanh_post_processor self) x params
           = Inr (x, params)"
proof -
  have "map2 (\<lambda>ym t. ym * t / 8) ymax
          (map (\<lambda>v. 4 + 5 * tanh v)
             (map (\<lambda>v. artanh ((v - 4) / 5)) (map2 (\<lambda>xi ym. 8 * xi / ym) x ymax))) = x"
    using len rng tanh_component by (intro nth_equalityI) simp_all
  then show ?thesis
    using ub len
    by (simp add: round_trip_def NumSysLinTanh_pre_processor_def
          NumSysLinTanh_post_processor_def np_binop_def)
qed

lemma example_numsys_bounds:
  "upper_conc_bounds (eqsys example_numsys)
     (take (ns (eqsys example_numsys)) (1 # 1 # 0 # 0 # rest)) = Inr [1, 1, 1, 1]"
proof -
  have "take (ns (eqsys example_numsys)) (1 # 1 # 0 # 0 # rest) = [1, 1, 0, 0 :: real]"
    by (simp add: example_numsys_def example_system_def example_substances_def ns_def)
  then show ?thesis by (simp add: example_bounds example_numsys_def)
qed

text \<open>
  Claim C8, as amended. For a concentration vector whose entries all exceed the strategy's
  floor \<open>small\<close>, with the parameters passed through unchanged and the weights of the
  compositions nonzero: the Square-root strategy
  returns the vector itself; the Log strategy returns it with \<open>small = e\<^sup>-\<^sup>8\<^sup>0\<close> added to
  every entry; the Linear-Relative strategy returns the vector itself when the upper
  bounds exist, one for each entry and none of them zero; the Tanh-bounded strategy returns
  the vector itself when the upper bounds exist, one for each entry and positive, and every
  entry is below nine eighths of its bound.
\<close>

theorem processors_round_trip:
  "((\<forall>v \<in> set x. NumSysSquare_small < v) \<longrightarrow>
      case_prod NumSysSquare_post_processor (NumSysSquare_pre_processor x params) = (x, params))
   \<and> ((\<forall>v \<in> set x. NumSysLog_small < v) \<longrightarrow>
      case_prod NumSysLog_post_processor (NumSysLog_pre_processor x params)
        = (map (\<lambda>v. v + NumSysLog_small) x, params))
   \<and> ((\<forall>v \<in> set x. NumSys_small < v) \<and> nonzero_weights (eqsys self)
       \<and> upper_conc_bounds (eqsys self) (take (ns (eqsys self)) params) = Inr ymax
       \<and> list_all2 (\<lambda>xi ym. ym \<noteq> 0) x ymax \<longrightarrow>
      round_trip (NumSysLinRel_pre_processor self) (NumSysLinRel_post_processor self) x params
        = Inr (x, params))
   \<and> ((\<forall>v \<in> set x. NumSys_small < v) \<and> nonzero_weights (eqsys self)
       \<and> upper_conc_bounds (eqsys self) (take (ns (eqsys self)) params) = Inr ymax
       \<and> list_all2 (\<lambda>xi ym. 0 < ym \<and> xi < 9 * ym / 8) x ymax \<longrightarrow>
      round_trip (NumSysLinTanh_pre_processor self) (NumSysLinTanh_post_processor self) x params
        = Inr (x, params))"
proof (intro conjI impI)
  assume "\<forall>v \<in> set x. NumSysSquare_small < v"
  then have "\<forall>v \<in> set x. 0 \<le> v"
    by (auto simp: NumSysSquare_small_def intro: less_imp_le order.strict_trans2[rotated])
  then show "case_prod NumSysSquare_post_processor (NumSysSquare_pre_processor x params)
               = (x, params)"
    by (rule square_round_trip)
next
  assume a: "\<forall>v \<in> set x. NumSysLog_small < v"
  have "0 < NumSysLog_small" by (simp add: NumSysLog_small_def)
  with a have "\<forall>v \<in> set x. - NumSysLog_small < v" by fastforce
  then show "case_prod NumSysLog_post_processor (NumSysLog_pre_processor x params)
               = (map (\<lambda>v. v + NumSysLog_small) x, params)"
    by (rule log_round_trip)
next
  assume a: "(\<forall>v \<in> set x. NumSys_small < v) \<and> nonzero_weights (eqsys self)
       \<and> upper_conc_bounds (eqsys self) (take (ns (eqsys self)) params) = Inr ymax
       \<and> list_all2 (\<lambda>xi ym. ym \<noteq> 0) x ymax"
  then have len: "length x = length ymax" and nz: "\<forall>m \<in> set ymax. m \<noteq> 0"
    by (auto simp: list_all2_conv_all_nth in_set_conv_nth)
  from a len nz show "round_trip (NumSysLinRel_pre_processor self)
      (NumSysLinRel_post_processor self) x params = Inr (x, params)"
    by (intro linrel_round_trip) simp_all
next
  assume a: "(\<forall>v \<in> set x. NumSys_small < v) \<and> nonzero_weights (eqsys self)
       \<and> upper_conc_bounds (eqsys self) (take (ns (eqsys self)) params) = Inr ymax
       \<and> list_all2 (\<lambda>xi ym. 0 < ym \<and> xi < 9 * ym / 8) x ymax"
  then have len: "length x = length ymax"
    and up: "\<forall>i < length x. 0 < ymax ! i \<and> x ! i < 9 * ymax ! i / 8"
    by (auto simp: list_all2_conv_all_nth)
  have "\<forall>i < length x. 0 < ymax ! i \<and> - (ymax ! i) / 8 < x ! i \<and> x ! i < 9 * ymax ! i / 8"
  proof (intro allI impI)
    fix i assume i: "i < length x"
    then have "0 < x ! i" using a by (auto simp: NumSys_small_def)
    moreover have "0 < ymax ! i" "x ! i < 9 * ymax ! i / 8" using up i by simp_all
    ultimately show "0 < ymax ! i \<and> - (ymax ! i) / 8 < x ! i \<and> x ! i < 9 * ymax ! i / 8"
      by simp
  qed
  with a len show "round_trip (NumSysLinTanh_pre_processor self)
      (NumSysLinTanh_post_processor self) x params = Inr (x, params)"
    by (intro lintanh_round_trip) simp_all
qed

theorem processors_round_trip_witness:
  "case_prod NumSysSquare_post_processor
       (NumSysSquare_pre_processor [1 / 2, 1 / 4, 1 / 4, 1 / 4] [1, 1, 0, 0, 1 / 10 ^ 5, 1 / 10 ^ 2])
     = ([1 / 2, 1 / 4, 1 / 4, 1 / 4], [1, 1, 0, 0, 1 / 10 ^ 5, 1 / 10 ^ 2])
   \<and> case_prod NumSysLog_post_processor
       (NumSysLog_pre_processor [1 / 2, 1 / 4, 1 / 4, 1 / 4] [1, 1, 0, 0, 1 / 10 ^ 5, 1 / 10 ^ 2])
     = (map (\<lambda>v. v + NumSysLog_small) [1 / 2, 1 / 4, 1 / 4, 1 / 4],
        [1, 1, 0, 0, 1 / 10 ^ 5, 1 / 10 ^ 2])
   \<and> round_trip (NumSysLinRel_pre_processor example_numsys)
        (NumSysLinRel_post_processor example_numsys)
        [1 / 2, 1 / 4, 1 / 4, 1 / 4] [1, 1, 0, 0, 1 / 10 ^ 5, 1 / 10 ^ 2]
     = Inr ([1 / 2, 1 / 4, 1 / 4, 1 / 4], [1, 1, 0, 0, 1 / 10 ^ 5, 1 / 10 ^ 2])
   \<and> round_trip (NumSysLinTanh_pre_processor example_numsys)
        (NumSysLinTanh_post_processor example_numsys)
        [1 / 2, 1 / 4, 1 / 4, 1 / 4] [1, 1, 0, 0, 1 / 10 ^ 5, 1 / 10 ^ 2]
     = Inr ([1 / 2, 1 / 4, 1 / 4, 1 / 4], [1, 1, 0, 0, 1 / 10 ^ 5, 1 / 10 ^ 2])"
proof -
  have lg: "NumSysLog_small < 1 / 4"
  proof -
    have "exp (- 80 :: real) \<le> 1 / (1 + 80)"
      using exp_ge_add_one_self[of "80 :: real"] by (simp add: exp_minus field_simps)
    then show ?thesis by (simp add: NumSysLog_small_def)
  qed
  have s1: "\<forall>v \<in> set [1 / 2, 1 / 4, 1 / 4, 1 / 4 :: real]. NumSysSquare_small < v"
    by (simp add: NumSysSquare_small_def)
  have s2: "\<forall>v \<in> set [1 / 2, 1 / 4, 1 / 4, 1 / 4 :: real]. NumSysLog_small < v"
    using lg by simp
  have s3: "\<forall>v \<in> set [1 / 2, 1 / 4, 1 / 4, 1 / 4 :: real]. NumSys_small < v"
    by (simp add: NumSys_small_def)
  have s4: "list_all2 (\<lambda>xi ym. ym \<noteq> 0) [1 / 2, 1 / 4, 1 / 4, 1 / 4 :: real] [1, 1, 1, 1 :: real]"
    by simp
  have s5: "list_all2 (\<lambda>xi ym. 0 < ym \<and> xi < 9 * ym / 8)
              [1 / 2, 1 / 4, 1 / 4, 1 / 4 :: real] [1, 1, 1, 1 :: real]"
    by simp
  have s6: "nonzero_weights (eqsys example_numsys)"
    by (simp add: nonzero_weights_def example_numsys_def example_system_def
          example_substances_def)
  from processors_round_trip[of "[1 / 2, 1 / 4, 1 / 4, 1 / 4]"
      "[1, 1, 0, 0, 1 / 10 ^ 5, 1 / 10 ^ 2]" example_numsys "[1, 1, 1, 1]"]
    s1 s2 s3 s4 s5 s6 example_numsys_bounds
  show ?thesis by blast
qed

text \<open>
  The Tanh-bounded strategy maps every solver value to less than nine eighths of the upper
  bound: with all bounds \<open>1\<close>, the entry \<open>2\<close> of \<open>[2, 1/2, 1/2, 1/2]\<close> comes back more
  than \<open>7/8\<close> away.
\<close>

theorem processors_round_trip_counterexample:
  "list_all (\<lambda>v. NumSys_small < v) [2, 1 / 2, 1 / 2, 1 / 2]
   \<and> (\<exists>r. round_trip (NumSysLinTanh_pre_processor example_numsys)
              (NumSysLinTanh_post_processor example_numsys)
              [2, 1 / 2, 1 / 2, 1 / 2] [1, 1, 0, 0, 1 / 10 ^ 5, 1 / 10 ^ 2]
            = Inr (r, [1, 1, 0, 0, 1 / 10 ^ 5, 1 / 10 ^ 2])
          \<and> 7 / 8 < \<bar>r ! 0 - [2, 1 / 2, 1 / 2, 1 / 2] ! 0\<bar>)"
proof -
  have fl: "list_all (\<lambda>v. NumSys_small < v) [2, 1 / 2, 1 / 2, 1 / 2 :: real]"
    by (simp add: NumSys_small_def)
  let ?r = "map2 (\<lambda>ym t. ym * t / 8) [1, 1, 1, 1]
              (map (\<lambda>v. 4 + 5 * tanh v)
                 (map (\<lambda>v. artanh ((v - 4) / 5))
                    (map2 (\<lambda>xi ym. 8 * xi / ym) [2, 1 / 2, 1 / 2, 1 / 2] [1, 1, 1, 1 :: real])))"
  have rt: "round_trip (NumSysLinTanh_pre_processor example_numsys)
              (NumSysLinTanh_post_processor example_numsys)
              [2, 1 / 2, 1 / 2, 1 / 2] [1, 1, 0, 0, 1 / 10 ^ 5, 1 / 10 ^ 2]
            = Inr (?r, [1, 1, 0, 0, 1 / 10 ^ 5, 1 / 10 ^ 2])"
    by (simp add: round_trip_def NumSysLinTanh_pre_processor_def
          NumSysLinTanh_post_processor_def example_numsys_bounds np_binop_def)
  have "?r ! 0 = (4 + 5 * tanh (artanh (12 / 5))) / 8" by simp
  moreover have "tanh (artanh (12 / 5 :: real)) < 1" by (rule tanh_real_lt_1)
  ultimately have "?r ! 0 < 9 / 8" by simp
  then have "7 / 8 < \<bar>?r ! 0 - [2, 1 / 2, 1 / 2, 1 / 2] ! 0\<bar>" by simp
  with fl rt show ?thesis by blast
qed

end
